theory Spec2Isabelle
  imports Main
begin

section \<open>Filename sanitisation\<close>

text \<open>
  \<^verbatim>\<open>sanitize_filename\<close> (app.py, lines 124-131) works on a Python string; the model works
  on a \<^typ>\<open>string\<close>, and an absent filename (\<^verbatim>\<open>None\<close>) is \<^term>\<open>None\<close>. A character
  outside ASCII is one or more characters outside the safe class in either reading, and
  the run of underscores it becomes is collapsed to a single one, so both readings give the
  same name.
\<close>

text \<open>The character class \<^verbatim>\<open>[a-zA-Z0-9_.-]\<close> of the first substitution.\<close>

definition safe_char :: "char \<Rightarrow> bool" where
  "safe_char c =
     (c \<in> set ''abcdefghijklmnopqrstuvwxyzABCDEFGHIJKLMNOPQRSTUVWXYZ0123456789_.-'')"

text \<open>\<^verbatim>\<open>re.sub(r'[^a-zA-Z0-9_.-]', '_', filename)\<close>\<close>

definition replace_unsafe :: "string \<Rightarrow> string" where
  "replace_unsafe s = map (\<lambda>c. if safe_char c then c else CHR ''_'') s"

text \<open>\<^verbatim>\<open>re.sub(r'_+', '_', sani)\<close>: every maximal run of underscores becomes one.\<close>

fun collapse_underscores :: "string \<Rightarrow> string" where
  "collapse_underscores [] = []"
| "collapse_underscores [c] = [c]"
| "collapse_underscores (a # b # cs) =
     (if a = CHR ''_'' \<and> b = CHR ''_'' then collapse_underscores (b # cs)
      else a # collapse_underscores (b # cs))"

text \<open>\<^verbatim>\<open>sani.strip('_.-')\<close>: drop the characters of the set at both ends.\<close>

definition strip_char :: "char \<Rightarrow> bool" where
  "strip_char c = (c = CHR ''_'' \<or> c = CHR ''.'' \<or> c = CHR ''-'')"

definition strip_seps :: "string \<Rightarrow> string" where
  "strip_seps s = rev (dropWhile strip_char (rev (dropWhile strip_char s)))"

definition sanitize_filename :: "string option \<Rightarrow> string" where
  "sanitize_filename filename =
     (case filename of
        None \<Rightarrow> ''unnamed_attachment''
      | Some f \<Rightarrow>
          if f = [] then ''unnamed_attachment''
          else
            let sani = strip_seps (collapse_underscores (replace_unsafe f))
            in if sani = [] then ''attachment'' else sani)"

text \<open>A run of two or more consecutive underscores somewhere in the string.\<close>

fun underscore_run :: "string \<Rightarrow> bool" where
  "underscore_run (a # b # cs) = ((a = CHR ''_'' \<and> b = CHR ''_'') \<or> underscore_run (b # cs))"
| "underscore_run _ = False"

section \<open>Python values and exceptions\<close>

text \<open>
  The push envelope and the history identifiers are untyped JSON values in the source
  (\<^verbatim>\<open>request.get_json()\<close>, \<^verbatim>\<open>json.loads\<close>, the fields of an API response).
  \<^verbatim>\<open>None\<close> is \<^term>\<open>JNull\<close>, a \<^verbatim>\<open>dict\<close> is an association list read with
  \<^const>\<open>map_of\<close>. JSON numbers with a fraction are left out.
\<close>

datatype json =
    JNull
  | JBool bool
  | JNum int
  | JStr string
  | JArr "json list"
  | JObj "(string \<times> json) list"

text \<open>
  The exceptions the code can meet. \<^term>\<open>HttpError c\<close> is googleapiclient's
  \<^verbatim>\<open>HttpError\<close> for a response of status \<^term>\<open>c\<close>; \<^term>\<open>TransportError\<close> stands for
  every other exception an \<^verbatim>\<open>execute()\<close> call raises (a timeout, a reset connection, a
  failed token refresh), which an \<^verbatim>\<open>except HttpError\<close> clause does not catch;
  \<^term>\<open>DecodeError\<close> is \<^verbatim>\<open>binascii.Error\<close> or \<^verbatim>\<open>UnicodeDecodeError\<close>.
\<close>

datatype exn =
    RuntimeError
  | TypeError
  | ValueError
  | AttributeError
  | DecodeError
  | HttpError nat
  | TransportError

datatype result = Returned | Raised exn

text \<open>
  Library functions of Python that the code calls on strings, taken as parameters:
  \<^verbatim>\<open>int(s)\<close> on a \<^verbatim>\<open>str\<close> (\<^term>\<open>None\<close>: \<^verbatim>\<open>ValueError\<close>),
  \<^verbatim>\<open>base64.b64decode(s).decode('utf-8')\<close> (\<^term>\<open>None\<close>: \<^verbatim>\<open>binascii.Error\<close> or
  \<^verbatim>\<open>UnicodeDecodeError\<close>) and \<^verbatim>\<open>json.loads(s)\<close> (\<^term>\<open>None\<close>:
  \<^verbatim>\<open>JSONDecodeError\<close>).
\<close>

record pylib =
  int_of_str :: "string \<Rightarrow> int option"
  b64decode_utf8 :: "string \<Rightarrow> string option"
  json_loads :: "string \<Rightarrow> json option"

text \<open>Truth value of a Python object, as \<^verbatim>\<open>if not x\<close> reads it.\<close>

fun py_truthy :: "json \<Rightarrow> bool" where
  "py_truthy JNull = False"
| "py_truthy (JBool b) = b"
| "py_truthy (JNum n) = (n \<noteq> 0)"
| "py_truthy (JStr s) = (s \<noteq> [])"
| "py_truthy (JArr xs) = (xs \<noteq> [])"
| "py_truthy (JObj kvs) = (kvs \<noteq> [])"

text \<open>\<^verbatim>\<open>d.get(k)\<close> on a dict: the value, or \<^verbatim>\<open>None\<close>.\<close>

definition dict_get :: "(string \<times> json) list \<Rightarrow> string \<Rightarrow> json" where
  "dict_get kvs k = (case map_of kvs k of None \<Rightarrow> JNull | Some v \<Rightarrow> v)"

text \<open>\<^verbatim>\<open>int(x)\<close>\<close>

fun py_int :: "pylib \<Rightarrow> json \<Rightarrow> exn + int" where
  "py_int lib (JNum n) = Inr n"
| "py_int lib (JBool b) = Inr (if b then 1 else 0)"
| "py_int lib (JStr s) = (case int_of_str lib s of None \<Rightarrow> Inl ValueError | Some n \<Rightarrow> Inr n)"
| "py_int lib JNull = Inl TypeError"
| "py_int lib (JArr xs) = Inl TypeError"
| "py_int lib (JObj kvs) = Inl TypeError"

section \<open>Provider responses, configuration and state\<close>

text \<open>The outcome of one \<^verbatim>\<open>execute()\<close> call on the Gmail client.\<close>

datatype 'a response = Ok 'a | HttpErr nat | OtherExc

text \<open>
  A message as a history record refers to it: \<^verbatim>\<open>id\<close> (absent: \<^term>\<open>None\<close>) and
  \<^verbatim>\<open>labelIds\<close> (absent: the empty list).
\<close>

record message_ref =
  ref_id :: "string option"
  labelIds :: "string list"

text \<open>
  One change record of \<^verbatim>\<open>history.list\<close>. Each entry of \<^verbatim>\<open>messagesAdded\<close>,
  \<^verbatim>\<open>messagesDeleted\<close> and \<^verbatim>\<open>labelsAdded\<close> carries a \<^verbatim>\<open>message\<close>, or none
  (\<^term>\<open>None\<close>).
\<close>

record history_record =
  messagesAdded :: "message_ref option list"
  messagesDeleted :: "message_ref option list"
  labelsAdded :: "message_ref option list"

record history_response =
  historyId :: "json option"
  history :: "history_record list"

text \<open>
  A top-level part of a message payload: \<^verbatim>\<open>filename\<close>, \<^verbatim>\<open>mimeType\<close> and
  \<^verbatim>\<open>body.attachmentId\<close>, each possibly absent.
\<close>

record part =
  filename :: "string option"
  mimeType :: "string option"
  attachmentId :: "string option"

record message =
  payload_parts :: "part list"

text \<open>
  The \<^verbatim>\<open>data\<close> field of an attachment response, by what
  \<^verbatim>\<open>base64.urlsafe_b64decode\<close> makes of it: absent or empty, not decodable, or the
  decoded bytes.
\<close>

datatype attachment_data = NoData | BadBase64 | Bytes string

text \<open>
  What the outside world answers during one pass: the three Gmail calls, whether
  \<^verbatim>\<open>blob.upload_from_string\<close> succeeds for a blob name, and whether
  \<^verbatim>\<open>get_gmail_service\<close> returns a service.
\<close>

record env =
  history_list :: "int \<Rightarrow> history_response response"
  messages_get :: "string \<Rightarrow> message response"
  attachments_get :: "string \<Rightarrow> string \<Rightarrow> attachment_data response"
  upload_from_string :: "string \<Rightarrow> bool"
  gmail_service :: bool

text \<open>
  Module-level configuration: whether each client was constructed, and
  \<^verbatim>\<open>MONITORED_EMAIL_ADDRESS\<close> (unset: \<^term>\<open>None\<close>).
\<close>

record config =
  datastore_client :: bool
  storage_client :: bool
  TARGET_USER_EMAIL :: "string option"

text \<open>
  Calls that leave the process, newest first in \<^term>\<open>calls\<close>.
\<close>

datatype call =
    HistoryList int
  | MessagesGet string
  | AttachmentsGet string string
  | BlobUpload string

text \<open>
  The state a pass reads and writes: the \<^verbatim>\<open>historyId\<close> of the Datastore entity (no
  entity: \<^term>\<open>None\<close>), the objects written to the bucket as (name, data, content type),
  newest first, and the calls made. Datastore reads and writes are taken to succeed.
\<close>

record world =
  cursor :: "int option"
  gcs :: "(string \<times> string \<times> string) list"
  calls :: "call list"

section \<open>Helpers of the source\<close>

text \<open>
  \<^verbatim>\<open>get_message\<close> (lines 101-108) and \<^verbatim>\<open>get_attachment\<close> (lines 110-121) catch
  \<^verbatim>\<open>HttpError\<close> and return \<^verbatim>\<open>None\<close>; any other exception passes through them, and so
  does the \<^verbatim>\<open>binascii.Error\<close> of the decoding in \<^verbatim>\<open>get_attachment\<close>.
  \<^verbatim>\<open>upload_to_gcs\<close> (lines 133-146) catches every exception and returns a flag.
  \<^verbatim>\<open>get_last_history_id\<close> and \<^verbatim>\<open>save_last_history_id\<close> (lines 149-163) read and write
  the entity; the value written is \<^verbatim>\<open>int(history_id)\<close>.
\<close>

definition get_message :: "env \<Rightarrow> string \<Rightarrow> world \<Rightarrow> (exn + message option) \<times> world" where
  "get_message ev msg_id w =
     (let w1 = w\<lparr>calls := MessagesGet msg_id # calls w\<rparr>
      in case messages_get ev msg_id of
           Ok m \<Rightarrow> (Inr (Some m), w1)
         | HttpErr c \<Rightarrow> (Inr None, w1)
         | OtherExc \<Rightarrow> (Inl TransportError, w1))"

definition get_attachment ::
  "env \<Rightarrow> string \<Rightarrow> string \<Rightarrow> world \<Rightarrow> (exn + string option) \<times> world" where
  "get_attachment ev msg_id attachment_id w =
     (let w1 = w\<lparr>calls := AttachmentsGet msg_id attachment_id # calls w\<rparr>
      in case attachments_get ev msg_id attachment_id of
           Ok NoData \<Rightarrow> (Inr None, w1)
         | Ok BadBase64 \<Rightarrow> (Inl DecodeError, w1)
         | Ok (Bytes d) \<Rightarrow> (Inr (Some d), w1)
         | HttpErr c \<Rightarrow> (Inr None, w1)
         | OtherExc \<Rightarrow> (Inl TransportError, w1))"

definition upload_to_gcs ::
  "config \<Rightarrow> env \<Rightarrow> string \<Rightarrow> string \<Rightarrow> string \<Rightarrow> world \<Rightarrow> bool \<times> world" where
  "upload_to_gcs cf ev blob_name data content_type w =
     (if \<not> storage_client cf then (False, w)
      else
        let w1 = w\<lparr>calls := BlobUpload blob_name # calls w\<rparr>
        in if upload_from_string ev blob_name
           then (True, w1\<lparr>gcs := (blob_name, data, content_type) # gcs w1\<rparr>)
           else (False, w1))"

definition get_last_history_id :: "config \<Rightarrow> world \<Rightarrow> int option" where
  "get_last_history_id cf w = (if \<not> datastore_client cf then None else cursor w)"

definition save_last_history_id :: "pylib \<Rightarrow> config \<Rightarrow> json \<Rightarrow> world \<Rightarrow> result \<times> world" where
  "save_last_history_id lib cf history_id w =
     (if \<not> datastore_client cf then (Returned, w)
      else case py_int lib history_id of
             Inl e \<Rightarrow> (Raised e, w)
           | Inr n \<Rightarrow> (Returned, w\<lparr>cursor := Some n\<rparr>))"

section \<open>Blob names\<close>

text \<open>\<^verbatim>\<open>str(i)\<close> for the index that \<^verbatim>\<open>enumerate\<close> gives: decimal digits.\<close>

definition digit_char :: "nat \<Rightarrow> char" where
  "digit_char d = ''0123456789'' ! d"

fun str_of_nat :: "nat \<Rightarrow> string" where
  "str_of_nat n =
     (if n < 10 then [digit_char n] else str_of_nat (n div 10) @ [digit_char (n mod 10)])"

text \<open>\<^verbatim>\<open>f"{msg_id}/{i}_{sane_filename}"\<close>\<close>

definition destination_blob_name :: "string \<Rightarrow> nat \<Rightarrow> string \<Rightarrow> string" where
  "destination_blob_name msg_id i sane_filename =
     msg_id @ ''/'' @ str_of_nat i @ ''_'' @ sane_filename"

section \<open>The reconciliation pass\<close>

text \<open>
  The content type of a part is \<^verbatim>\<open>part.get('mimeType', 'application/octet-stream')\<close>.
  \<^verbatim>\<open>process_part\<close> is the body of the loop over \<^verbatim>\<open>enumerate(parts)\<close> (lines 225-239) for the part at index
  \<^term>\<open>i\<close>. Whatever \<^verbatim>\<open>get_attachment\<close> raises is caught by the
  \<^verbatim>\<open>except Exception\<close> around it, and \<^verbatim>\<open>upload_to_gcs\<close> returns a flag that is not
  read, so the part never ends the pass.
\<close>

definition part_content_type :: "part \<Rightarrow> string" where
  "part_content_type p =
     (case mimeType p of None \<Rightarrow> ''application/octet-stream'' | Some t \<Rightarrow> t)"

definition process_part :: "config \<Rightarrow> env \<Rightarrow> string \<Rightarrow> nat \<Rightarrow> part \<Rightarrow> world \<Rightarrow> world" where
  "process_part cf ev msg_id i p w =
     (case filename p of
        None \<Rightarrow> w
      | Some fname \<Rightarrow>
          if fname = [] then w
          else
            let content_type = part_content_type p
            in case attachmentId p of
                 None \<Rightarrow> w
               | Some attachment_id \<Rightarrow>
                   if attachment_id = [] then w
                   else
                     (case get_attachment ev msg_id attachment_id w of
                        (Inl e, w1) \<Rightarrow> w1
                      | (Inr None, w1) \<Rightarrow> w1
                      | (Inr (Some attachment_data), w1) \<Rightarrow>
                          if attachment_data = [] then w1
                          else
                            let sane_filename = sanitize_filename (Some fname)
                            in snd (upload_to_gcs cf ev
                                      (destination_blob_name msg_id i sane_filename)
                                      attachment_data content_type w1)))"

fun process_parts :: "config \<Rightarrow> env \<Rightarrow> string \<Rightarrow> nat \<Rightarrow> part list \<Rightarrow> world \<Rightarrow> world" where
  "process_parts cf ev msg_id i [] w = w"
| "process_parts cf ev msg_id i (p # ps) w =
     process_parts cf ev msg_id (Suc i) ps (process_part cf ev msg_id i p w)"

text \<open>
  The loop over \<^verbatim>\<open>message_ids\<close> (lines 217-239). \<^verbatim>\<open>get_message\<close> turns an
  \<^verbatim>\<open>HttpError\<close> into \<^verbatim>\<open>None\<close>, and the message is skipped; any other exception
  leaves the loop and the function, since line 218 stands in no \<^verbatim>\<open>try\<close>. A message
  without \<^verbatim>\<open>payload\<close> or \<^verbatim>\<open>parts\<close> has the empty list of parts; an empty message,
  which \<^verbatim>\<open>if message\<close> skips, is such a message.
\<close>

fun process_messages :: "config \<Rightarrow> env \<Rightarrow> string list \<Rightarrow> world \<Rightarrow> result \<times> world" where
  "process_messages cf ev [] w = (Returned, w)"
| "process_messages cf ev (msg_id # rest) w =
     (case get_message ev msg_id w of
        (Inl e, w1) \<Rightarrow> (Raised e, w1)
      | (Inr None, w1) \<Rightarrow> process_messages cf ev rest w1
      | (Inr (Some m), w1) \<Rightarrow>
          process_messages cf ev rest (process_parts cf ev msg_id 0 (payload_parts m) w1))"

text \<open>
  Lines 205-211: the set of identifiers of added messages that carry the label
  \<^verbatim>\<open>INBOX\<close>. The Python set is a list without repetition here; the order in which
  Python iterates a set is not fixed, and nothing below depends on the order chosen.
\<close>

definition add_message_id :: "message_ref option \<Rightarrow> string list \<Rightarrow> string list" where
  "add_message_id msg_added message_ids =
     (case msg_added of
        None \<Rightarrow> message_ids
      | Some msg \<Rightarrow>
          (case ref_id msg of
             None \<Rightarrow> message_ids
           | Some i \<Rightarrow>
               if ''INBOX'' \<in> set (labelIds msg) then List.insert i message_ids
               else message_ids))"

definition collect_message_ids :: "history_record list \<Rightarrow> string list" where
  "collect_message_ids changes =
     fold (\<lambda>change message_ids. fold add_message_id (messagesAdded change) message_ids)
       changes []"

text \<open>\<^verbatim>\<open>process_new_mail\<close> (lines 166-242).\<close>

definition process_new_mail :: "pylib \<Rightarrow> config \<Rightarrow> env \<Rightarrow> json \<Rightarrow> world \<Rightarrow> result \<times> world" where
  "process_new_mail lib cf ev current_history_id_from_pubsub w =
     (if \<not> datastore_client cf then (Raised RuntimeError, w)
      else
        case get_last_history_id cf w of
          None \<Rightarrow> save_last_history_id lib cf current_history_id_from_pubsub w
        | Some last_processed_history_id \<Rightarrow>
            if last_processed_history_id = 0
            then save_last_history_id lib cf current_history_id_from_pubsub w
            else
              let start_history_id = last_processed_history_id
              in case py_int lib current_history_id_from_pubsub of
                   Inl e \<Rightarrow> (Raised e, w)
                 | Inr current_history_id \<Rightarrow>
                     if current_history_id \<le> start_history_id then (Returned, w)
                     else
                       let w1 = w\<lparr>calls := HistoryList start_history_id # calls w\<rparr>
                       in case history_list ev start_history_id of
                            HttpErr c \<Rightarrow> (Raised (HttpError c), w1)
                          | OtherExc \<Rightarrow> (Raised TransportError, w1)
                          | Ok h \<Rightarrow>
                              let new_history_id =
                                    (case historyId h of
                                       None \<Rightarrow> JNum start_history_id
                                     | Some v \<Rightarrow> v);
                                  changes = history h
                              in if changes = []
                                 then
                                   (case py_int lib new_history_id of
                                      Inl e \<Rightarrow> (Raised e, w1)
                                    | Inr k \<Rightarrow>
                                        if k > start_history_id
                                        then save_last_history_id lib cf new_history_id w1
                                        else (Returned, w1))
                                 else
                                   (case process_messages cf ev
                                           (collect_message_ids changes) w1 of
                                      (Raised e, w2) \<Rightarrow> (Raised e, w2)
                                    | (Returned, w2) \<Rightarrow>
                                        save_last_history_id lib cf new_history_id w2))"

section \<open>The push endpoint\<close>

text \<open>
  Lines 270-284: what the endpoint does with the value \<^verbatim>\<open>json.loads\<close> returned. A value
  that is not a dict has no \<^verbatim>\<open>get\<close>: the \<^verbatim>\<open>AttributeError\<close> is caught by
  \<^verbatim>\<open>except Exception\<close>. The result is the HTTP status and the state.
\<close>

definition handle_notification :: "pylib \<Rightarrow> config \<Rightarrow> env \<Rightarrow> json \<Rightarrow> world \<Rightarrow> nat \<times> world" where
  "handle_notification lib cf ev notification w =
     (case notification of
        JObj kvs \<Rightarrow>
          let email_address = dict_get kvs ''emailAddress'';
              history_id = dict_get kvs ''historyId''
          in if email_address \<noteq> (case TARGET_USER_EMAIL cf of None \<Rightarrow> JNull | Some a \<Rightarrow> JStr a)
             then (204, w)
             else if \<not> gmail_service ev then (500, w)
             else
               (case process_new_mail lib cf ev history_id w of
                  (Raised e, w') \<Rightarrow> (500, w')
                | (Returned, w') \<Rightarrow> (204, w'))
      | _ \<Rightarrow> (500, w))"

text \<open>
  \<^verbatim>\<open>process_pubsub_push\<close> (lines 245-294) on the value \<^verbatim>\<open>request.get_json()\<close>
  returned (\<^term>\<open>JNull\<close> for \<^verbatim>\<open>None\<close>); a request on which \<^verbatim>\<open>get_json\<close> itself
  aborts never reaches the lines below it. The two \<^verbatim>\<open>get\<close> calls of lines 257 and 262 stand outside the \<^verbatim>\<open>try\<close>: on
  a value that is not a dict they raise, nothing catches the exception, and Flask answers
  500.
\<close>

definition process_pubsub_push :: "pylib \<Rightarrow> config \<Rightarrow> env \<Rightarrow> json \<Rightarrow> world \<Rightarrow> nat \<times> world" where
  "process_pubsub_push lib cf ev envelope w =
     (if \<not> datastore_client cf \<or> \<not> storage_client cf then (500, w)
      else if \<not> py_truthy envelope then (400, w)
      else
        case envelope of
          JObj ekvs \<Rightarrow>
            let pubsub_message = dict_get ekvs ''message''
            in if \<not> py_truthy pubsub_message then (400, w)
               else
                 (case pubsub_message of
                    JObj mkvs \<Rightarrow>
                      (case map_of mkvs ''data'' of
                         None \<Rightarrow> (400, w)
                       | Some data_b64 \<Rightarrow>
                           (case data_b64 of
                              JStr s \<Rightarrow>
                                (case b64decode_utf8 lib s of
                                   None \<Rightarrow> (500, w)
                                 | Some data_str \<Rightarrow>
                                     (case json_loads lib data_str of
                                        None \<Rightarrow> (400, w)
                                      | Some notification \<Rightarrow>
                                          handle_notification lib cf ev notification w))
                            | _ \<Rightarrow> (500, w)))
                  | _ \<Rightarrow> (500, w))
        | _ \<Rightarrow> (500, w))"

section \<open>Sequences of passes\<close>

text \<open>
  Notifications handled one after the other, each pass with the answers the outside
  world gives during it. The state is kept whether a pass returns or raises.
\<close>

fun process_all :: "pylib \<Rightarrow> config \<Rightarrow> (env \<times> json) list \<Rightarrow> world \<Rightarrow> world" where
  "process_all lib cf [] w = w"
| "process_all lib cf ((ev, n) # rest) w =
     process_all lib cf rest (snd (process_new_mail lib cf ev n w))"

text \<open>The stored cursor after each pass of the sequence.\<close>

fun cursor_trace :: "pylib \<Rightarrow> config \<Rightarrow> (env \<times> json) list \<Rightarrow> world \<Rightarrow> int option list" where
  "cursor_trace lib cf [] w = []"
| "cursor_trace lib cf ((ev, n) # rest) w =
     (let w' = snd (process_new_mail lib cf ev n w)
      in cursor w' # cursor_trace lib cf rest w')"

text \<open>
  The order on stored cursors: no entity is below every value, and a value is never
  followed by no entity.
\<close>

fun cursor_le :: "int option \<Rightarrow> int option \<Rightarrow> bool" where
  "cursor_le None c = True"
| "cursor_le (Some a) None = False"
| "cursor_le (Some a) (Some b) = (a \<le> b)"

text \<open>A notification whose cursor, when \<^verbatim>\<open>int\<close> accepts it, is not negative.\<close>

definition nonneg_cursor :: "pylib \<Rightarrow> json \<Rightarrow> bool" where
  "nonneg_cursor lib n = (case py_int lib n of Inl e \<Rightarrow> True | Inr k \<Rightarrow> 0 \<le> k)"

text \<open>
  The history answer for the stored cursor of \<^term>\<open>w\<close>, when it carries change records
  and a \<^verbatim>\<open>historyId\<close> that \<^verbatim>\<open>int\<close> accepts, reports one that is not below the
  stored cursor.
\<close>

definition delta_not_lower :: "pylib \<Rightarrow> env \<Rightarrow> world \<Rightarrow> bool" where
  "delta_not_lower lib ev w =
     (case cursor w of
        None \<Rightarrow> True
      | Some s \<Rightarrow>
          (case history_list ev s of
             Ok h \<Rightarrow>
               (case historyId h of
                  None \<Rightarrow> True
                | Some v \<Rightarrow>
                    (case py_int lib v of
                       Inl e \<Rightarrow> True
                     | Inr k \<Rightarrow> history h = [] \<or> s \<le> k))
           | _ \<Rightarrow> True))"

fun passes_ok :: "pylib \<Rightarrow> config \<Rightarrow> (env \<times> json) list \<Rightarrow> world \<Rightarrow> bool" where
  "passes_ok lib cf [] w = True"
| "passes_ok lib cf ((ev, n) # rest) w =
     (nonneg_cursor lib n \<and> delta_not_lower lib ev w \<and>
      passes_ok lib cf rest (snd (process_new_mail lib cf ev n w)))"

text \<open>The identifiers that \<^verbatim>\<open>messages.get\<close> was called with, newest first.\<close>

fun message_fetches :: "call list \<Rightarrow> string list" where
  "message_fetches [] = []"
| "message_fetches (MessagesGet m # cs) = m # message_fetches cs"
| "message_fetches (c # cs) = message_fetches cs"

section \<open>Example data\<close>

text \<open>
  The three library functions on the strings the examples use: \<^verbatim>\<open>e30=\<close> is the base64
  text of \<^verbatim>\<open>{}\<close>, \<^verbatim>\<open>e3g=\<close> that of \<^verbatim>\<open>{x\<close>, which is not JSON, and \<^verbatim>\<open>e3\<close> is not
  base64: its padding is wrong.
\<close>

definition demo_lib :: pylib where
  "demo_lib =
     \<lparr>int_of_str = (\<lambda>s. if s = ''125'' then Some 125 else if s = ''10'' then Some 10 else None),
      b64decode_utf8 =
        (\<lambda>s. if s = ''e30='' then Some ''{}'' else if s = ''e3g='' then Some ''{x'' else None),
      json_loads = (\<lambda>s. if s = ''{}'' then Some (JObj []) else None)\<rparr>"

definition demo_cf :: config where
  "demo_cf =
     \<lparr>datastore_client = True, storage_client = True,
      TARGET_USER_EMAIL = Some ''inbox@example.com''\<rparr>"

text \<open>
  A mailbox whose history reports \<^verbatim>\<open>m1\<close> (twice) and \<^verbatim>\<open>m2\<close> as added to the inbox,
  \<^verbatim>\<open>m3\<close> as added to spam and \<^verbatim>\<open>m4\<close> as deleted. \<^verbatim>\<open>m1\<close> has an inline part and a
  named attachment; the fetch of every other message fails with an \<^verbatim>\<open>HttpError\<close>.
\<close>

definition demo_history :: "history_record list" where
  "demo_history =
     [\<lparr>messagesAdded =
         [Some \<lparr>ref_id = Some ''m1'', labelIds = [''INBOX'']\<rparr>,
          Some \<lparr>ref_id = Some ''m2'', labelIds = [''UNREAD'', ''INBOX'']\<rparr>],
       messagesDeleted = [], labelsAdded = []\<rparr>,
      \<lparr>messagesAdded =
         [Some \<lparr>ref_id = Some ''m3'', labelIds = [''SPAM'']\<rparr>,
          Some \<lparr>ref_id = Some ''m1'', labelIds = [''INBOX'']\<rparr>],
       messagesDeleted = [Some \<lparr>ref_id = Some ''m4'', labelIds = [''INBOX'']\<rparr>],
       labelsAdded = []\<rparr>]"

definition demo_message :: message where
  "demo_message =
     \<lparr>payload_parts =
        [\<lparr>filename = Some [], mimeType = Some ''text/plain'', attachmentId = None\<rparr>,
         \<lparr>filename = Some ''report (final)!.pdf'', mimeType = Some ''application/pdf'',
          attachmentId = Some ''att1''\<rparr>]\<rparr>"

definition demo_env :: env where
  "demo_env =
     \<lparr>history_list = (\<lambda>start. Ok \<lparr>historyId = Some (JStr ''125''), history = demo_history\<rparr>),
      messages_get = (\<lambda>m. if m = ''m1'' then Ok demo_message else HttpErr 500),
      attachments_get =
        (\<lambda>m a. if m = ''m1'' \<and> a = ''att1'' then Ok (Bytes ''%PDF'') else HttpErr 404),
      upload_from_string = (\<lambda>name. True),
      gmail_service = True\<rparr>"

declare str_of_nat.simps [simp del]

section \<open>Properties of the sanitised name\<close>

lemma safe_char_underscore: "safe_char (CHR ''_'')"
  by (simp add: safe_char_def)

lemma replace_unsafe_safe: "list_all safe_char (replace_unsafe s)"
  by (induction s) (simp_all add: replace_unsafe_def safe_char_underscore)

lemma set_collapse_underscores: "set (collapse_underscores s) \<subseteq> set s"
  by (induction s rule: collapse_underscores.induct) auto

lemma underscore_run_iff:
  "underscore_run s \<longleftrightarrow> (\<exists>xs ys. s = xs @ CHR ''_'' # CHR ''_'' # ys)"
proof (induction s rule: underscore_run.induct)
  case (1 a b cs)
  show ?case
  proof
    assume "underscore_run (a # b # cs)"
    then consider "a = CHR ''_'' \<and> b = CHR ''_''" | "underscore_run (b # cs)" by auto
    then show "\<exists>xs ys. a # b # cs = xs @ CHR ''_'' # CHR ''_'' # ys"
    proof cases
      case 1
      then have "a # b # cs = [] @ CHR ''_'' # CHR ''_'' # cs" by simp
      then show ?thesis by blast
    next
      case 2
      with "1.IH" obtain xs ys where "b # cs = xs @ CHR ''_'' # CHR ''_'' # ys" by blast
      then have "a # b # cs = (a # xs) @ CHR ''_'' # CHR ''_'' # ys" by simp
      then show ?thesis by blast
    qed
  next
    assume "\<exists>xs ys. a # b # cs = xs @ CHR ''_'' # CHR ''_'' # ys"
    then obtain xs ys where e: "a # b # cs = xs @ CHR ''_'' # CHR ''_'' # ys" by blast
    show "underscore_run (a # b # cs)"
    proof (cases xs)
      case Nil
      with e show ?thesis by simp
    next
      case (Cons x xs')
      with e have "b # cs = xs' @ CHR ''_'' # CHR ''_'' # ys" by simp
      with "1.IH" have "underscore_run (b # cs)" by blast
      then show ?thesis by simp
    qed
  qed
qed (auto simp: Cons_eq_append_conv)

lemma collapse_head: "collapse_underscores (a # s) \<noteq> [] \<and> hd (collapse_underscores (a # s)) = a"
  by (induction s arbitrary: a) auto

lemma no_run_collapse: "\<not> underscore_run (collapse_underscores s)"
proof (induction s rule: collapse_underscores.induct)
  case (3 a b cs)
  obtain r where r: "collapse_underscores (b # cs) = b # r"
    using collapse_head[of b cs] by (cases "collapse_underscores (b # cs)") auto
  with 3 show ?case by auto
qed simp_all

lemma underscore_run_rev: "underscore_run (rev s) = underscore_run s"
proof -
  have "underscore_run (rev t)" if "underscore_run t" for t
  proof -
    from that obtain xs ys where "t = xs @ CHR ''_'' # CHR ''_'' # ys"
      by (auto simp: underscore_run_iff)
    then have "rev t = rev ys @ CHR ''_'' # CHR ''_'' # rev xs" by simp
    then show ?thesis unfolding underscore_run_iff by blast
  qed
  from this[of s] this[of "rev s"] show ?thesis by auto
qed

lemma underscore_run_dropWhile: "underscore_run (dropWhile P s) \<Longrightarrow> underscore_run s"
proof -
  assume "underscore_run (dropWhile P s)"
  then obtain xs ys where "dropWhile P s = xs @ CHR ''_'' # CHR ''_'' # ys"
    by (auto simp: underscore_run_iff)
  then have "s = (takeWhile P s @ xs) @ CHR ''_'' # CHR ''_'' # ys"
    by (metis append.assoc takeWhile_dropWhile_id)
  then show ?thesis unfolding underscore_run_iff by blast
qed

lemma underscore_run_strip: "underscore_run (strip_seps s) \<Longrightarrow> underscore_run s"
  unfolding strip_seps_def
  by (auto simp: underscore_run_rev dest!: underscore_run_dropWhile)

lemma set_strip_seps: "set (strip_seps s) \<subseteq> set s"
  unfolding strip_seps_def by (auto dest!: set_dropWhileD)

lemma hd_strip_trailing:
  assumes "rev (dropWhile P (rev d)) \<noteq> []"
  shows "hd (rev (dropWhile P (rev d))) = hd d"
proof -
  have "d = rev (takeWhile P (rev d) @ dropWhile P (rev d))" by simp
  also have "\<dots> = rev (dropWhile P (rev d)) @ rev (takeWhile P (rev d))"
    by (simp only: rev_append)
  finally have "hd d = hd (rev (dropWhile P (rev d)) @ rev (takeWhile P (rev d)))"
    by (rule arg_cong)
  with hd_append2 [OF assms] show ?thesis by simp
qed

lemma strip_seps_hd: "strip_seps s \<noteq> [] \<Longrightarrow> \<not> strip_char (hd (strip_seps s))"
proof -
  assume ne: "strip_seps s \<noteq> []"
  let ?d = "dropWhile strip_char s"
  from ne have "hd (strip_seps s) = hd ?d"
    unfolding strip_seps_def by (rule hd_strip_trailing)
  moreover have "?d \<noteq> []"
  proof
    assume "?d = []"
    then have "strip_seps s = rev (dropWhile strip_char (rev []))"
      by (simp only: strip_seps_def)
    with ne show False by simp
  qed
  ultimately show ?thesis by (simp add: hd_dropWhile)
qed

lemma strip_seps_last: "strip_seps s \<noteq> [] \<Longrightarrow> \<not> strip_char (last (strip_seps s))"
proof -
  assume ne: "strip_seps s \<noteq> []"
  let ?e = "dropWhile strip_char (rev (dropWhile strip_char s))"
  from ne have "?e \<noteq> []" by (simp add: strip_seps_def)
  moreover have "last (strip_seps s) = hd ?e" by (simp add: strip_seps_def last_rev)
  ultimately show ?thesis by (simp add: hd_dropWhile)
qed


lemma safe_char_core: "list_all safe_char (strip_seps (collapse_underscores (replace_unsafe f)))"
proof -
  have "set (strip_seps (collapse_underscores (replace_unsafe f))) \<subseteq> set (replace_unsafe f)"
    using set_strip_seps set_collapse_underscores by blast
  with replace_unsafe_safe [of f] show ?thesis
    by (auto simp: list_all_iff)
qed

lemma no_run_core: "\<not> underscore_run (strip_seps (collapse_underscores (replace_unsafe f)))"
  using underscore_run_strip no_run_collapse by blast

text \<open>
  Claim C7. For every input, absent or not, \<^const>\<open>sanitize_filename\<close> returns a name that
  is not empty, has only characters of \<^verbatim>\<open>[A-Za-z0-9_.-]\<close>, has no two underscores in a
  row, and neither starts nor ends with one of \<^verbatim>\<open>_\<close>, \<^verbatim>\<open>.\<close>, \<^verbatim>\<open>-\<close>. An absent or
  empty input gives \<^verbatim>\<open>unnamed_attachment\<close>; an input that is not empty and of which
  nothing is left after replacing, collapsing and stripping gives \<^verbatim>\<open>attachment\<close>, a
  different name.
\<close>

theorem sanitize_filename_correct:
  "sanitize_filename x \<noteq> []
   \<and> list_all safe_char (sanitize_filename x)
   \<and> \<not> underscore_run (sanitize_filename x)
   \<and> \<not> strip_char (hd (sanitize_filename x))
   \<and> \<not> strip_char (last (sanitize_filename x))
   \<and> sanitize_filename None = ''unnamed_attachment''
   \<and> sanitize_filename (Some []) = ''unnamed_attachment''
   \<and> (f \<noteq> [] \<and> strip_seps (collapse_underscores (replace_unsafe f)) = []
        \<longrightarrow> sanitize_filename (Some f) = ''attachment'')
   \<and> ''attachment'' \<noteq> ''unnamed_attachment''"
proof -
  have placeholder1: "list_all safe_char ''unnamed_attachment''"
    "\<not> underscore_run ''unnamed_attachment''"
    "\<not> strip_char (hd ''unnamed_attachment'')" "\<not> strip_char (last ''unnamed_attachment'')"
    by (simp_all add: safe_char_def strip_char_def)
  have placeholder2: "list_all safe_char ''attachment''"
    "\<not> underscore_run ''attachment''"
    "\<not> strip_char (hd ''attachment'')" "\<not> strip_char (last ''attachment'')"
    by (simp_all add: safe_char_def strip_char_def)
  have shape: "sanitize_filename x = ''unnamed_attachment'' \<or> sanitize_filename x = ''attachment''
      \<or> (\<exists>g. sanitize_filename x = strip_seps (collapse_underscores (replace_unsafe g))
              \<and> strip_seps (collapse_underscores (replace_unsafe g)) \<noteq> [])"
    by (auto simp: sanitize_filename_def Let_def split: option.splits)
  have general: "sanitize_filename x \<noteq> [] \<and> list_all safe_char (sanitize_filename x)
      \<and> \<not> underscore_run (sanitize_filename x)
      \<and> \<not> strip_char (hd (sanitize_filename x)) \<and> \<not> strip_char (last (sanitize_filename x))"
    using shape
  proof (elim disjE exE conjE)
    assume "sanitize_filename x = ''unnamed_attachment''"
    with placeholder1 show ?thesis by simp
  next
    assume "sanitize_filename x = ''attachment''"
    with placeholder2 show ?thesis by simp
  next
    fix g
    assume e: "sanitize_filename x = strip_seps (collapse_underscores (replace_unsafe g))"
      and ne: "strip_seps (collapse_underscores (replace_unsafe g)) \<noteq> []"
    show ?thesis
      unfolding e
      using ne safe_char_core [of g] no_run_core [of g] strip_seps_hd [OF ne] strip_seps_last [OF ne]
      by simp
  qed
  have fixed: "sanitize_filename None = ''unnamed_attachment''"
    "sanitize_filename (Some []) = ''unnamed_attachment''"
    by (simp_all add: sanitize_filename_def)
  have fallback: "f \<noteq> [] \<and> strip_seps (collapse_underscores (replace_unsafe f)) = []
        \<longrightarrow> sanitize_filename (Some f) = ''attachment''"
    by (simp add: sanitize_filename_def)
  from general fixed fallback show ?thesis by simp
qed

text \<open>
  The example of the specification, and a name made of unsafe characters only.
\<close>

theorem sanitize_filename_correct_witness:
  "sanitize_filename (Some ''report (final)!.pdf'') = ''report_final_.pdf''
   \<and> list_all safe_char (sanitize_filename (Some ''report (final)!.pdf''))
   \<and> \<not> underscore_run (sanitize_filename (Some ''report (final)!.pdf''))
   \<and> ''?!'' \<noteq> [] \<and> strip_seps (collapse_underscores (replace_unsafe ''?!'')) = []
   \<and> sanitize_filename (Some ''?!'') = ''attachment''"
proof -
  have a: "sanitize_filename (Some ''report (final)!.pdf'') = ''report_final_.pdf''"
    by (simp add: sanitize_filename_def replace_unsafe_def safe_char_def strip_seps_def
        strip_char_def)
  have b: "''?!'' \<noteq> [] \<and> strip_seps (collapse_underscores (replace_unsafe ''?!'')) = []"
    by (simp add: replace_unsafe_def safe_char_def strip_seps_def strip_char_def)
  from sanitize_filename_correct [of "Some ''report (final)!.pdf''" "''?!''"] a b
  show ?thesis by simp
qed

section \<open>Blob names are unique per part\<close>

lemma digit_char_not_underscore: "d < 10 \<Longrightarrow> digit_char d \<noteq> CHR ''_''"
proof -
  assume "d < 10"
  then have "d \<in> {0,1,2,3,4,5,6,7,8,9}" by auto
  then show ?thesis by (auto simp: digit_char_def)
qed

lemma digit_char_inj: "a < 10 \<Longrightarrow> b < 10 \<Longrightarrow> digit_char a = digit_char b \<Longrightarrow> a = b"
proof -
  assume "a < 10" "b < 10" and e: "digit_char a = digit_char b"
  then have "a \<in> {0,1,2,3,4,5,6,7,8,9}" "b \<in> {0,1,2,3,4,5,6,7,8,9}" by auto
  with e show ?thesis by (auto simp: digit_char_def)
qed

lemma str_of_nat_no_underscore: "CHR ''_'' \<notin> set (str_of_nat n)"
proof (induction n rule: str_of_nat.induct)
  case (1 n)
  show ?case
  proof (cases "n < 10")
    case True
    then show ?thesis
      using digit_char_not_underscore [of n] by (simp add: str_of_nat.simps [of n])
  next
    case False
    with 1 have "CHR ''_'' \<notin> set (str_of_nat (n div 10))" by simp
    moreover have "digit_char (n mod 10) \<noteq> CHR ''_''"
      by (rule digit_char_not_underscore) simp
    ultimately show ?thesis using False by (auto simp: str_of_nat.simps [of n])
  qed
qed

lemma str_of_nat_nonempty: "str_of_nat n \<noteq> []"
  by (simp add: str_of_nat.simps [of n])

lemma str_of_nat_inj: "str_of_nat a = str_of_nat b \<Longrightarrow> a = b"
proof (induction a arbitrary: b rule: str_of_nat.induct)
  case (1 a)
  show ?case
  proof (cases "a < 10")
    case True
    show ?thesis
    proof (cases "b < 10")
      case True
      with \<open>a < 10\<close> "1.prems" show ?thesis
        by (simp add: str_of_nat.simps [of a] str_of_nat.simps [of b] digit_char_inj)
    next
      case False
      with \<open>a < 10\<close> "1.prems" str_of_nat_nonempty [of "b div 10"] show ?thesis
        by (simp add: str_of_nat.simps [of a] str_of_nat.simps [of b])
    qed
  next
    case False
    show ?thesis
    proof (cases "b < 10")
      case True
      with \<open>\<not> a < 10\<close> "1.prems" str_of_nat_nonempty [of "a div 10"] show ?thesis
        by (simp add: str_of_nat.simps [of a] str_of_nat.simps [of b])
    next
      case b: False
      from False b "1.prems"
      have "str_of_nat (a div 10) = str_of_nat (b div 10)"
        and d: "digit_char (a mod 10) = digit_char (b mod 10)"
        by (simp_all add: str_of_nat.simps [of a] str_of_nat.simps [of b])
      with "1.IH" False have "a div 10 = b div 10" by blast
      moreover have "a mod 10 = b mod 10"
        using d by (intro digit_char_inj) simp_all
      ultimately show ?thesis by (metis div_mult_mod_eq)
    qed
  qed
qed

lemma prefix_before_underscore:
  assumes "xs @ CHR ''_'' # s = ys @ CHR ''_'' # t"
    and "CHR ''_'' \<notin> set xs" and "CHR ''_'' \<notin> set ys"
  shows "xs = ys"
proof -
  have "takeWhile (\<lambda>c. c \<noteq> CHR ''_'') (xs @ CHR ''_'' # s) = xs"
    using assms(2) by (induction xs) auto
  moreover have "takeWhile (\<lambda>c. c \<noteq> CHR ''_'') (ys @ CHR ''_'' # t) = ys"
    using assms(3) by (induction ys) auto
  ultimately show ?thesis using assms(1) by simp
qed

lemma destination_blob_name_index:
  assumes "destination_blob_name m i f = destination_blob_name m j g"
  shows "i = j"
proof -
  from assms have "str_of_nat i @ CHR ''_'' # f = str_of_nat j @ CHR ''_'' # g"
    by (simp add: destination_blob_name_def)
  then have "str_of_nat i = str_of_nat j"
    by (rule prefix_before_underscore) (rule str_of_nat_no_underscore)+
  then show ?thesis by (rule str_of_nat_inj)
qed

text \<open>
  Claim C9. Within one message, the blob names of two parts at different indices differ,
  whatever the two filenames are, the same filename included: the index is written in
  decimal before the first underscore of the name's last component.
\<close>

theorem blob_key_unique_per_part:
  "i \<noteq> j \<Longrightarrow>
     destination_blob_name msg_id i (sanitize_filename f)
       \<noteq> destination_blob_name msg_id j (sanitize_filename g)"
  using destination_blob_name_index by blast

text \<open>Two parts of one message, both named \<^verbatim>\<open>report.pdf\<close>.\<close>

theorem blob_key_unique_per_part_witness:
  "(0::nat) \<noteq> 1
   \<and> destination_blob_name ''m1'' 0 (sanitize_filename (Some ''report.pdf'')) = ''m1/0_report.pdf''
   \<and> destination_blob_name ''m1'' 1 (sanitize_filename (Some ''report.pdf'')) = ''m1/1_report.pdf''
   \<and> destination_blob_name ''m1'' 0 (sanitize_filename (Some ''report.pdf''))
       \<noteq> destination_blob_name ''m1'' 1 (sanitize_filename (Some ''report.pdf''))"
proof -
  have h: "(0::nat) \<noteq> 1" by simp
  have s: "sanitize_filename (Some ''report.pdf'') = ''report.pdf''"
    by (simp add: sanitize_filename_def replace_unsafe_def safe_char_def strip_seps_def
        strip_char_def)
  have a: "destination_blob_name ''m1'' 0 ''report.pdf'' = ''m1/0_report.pdf''"
    "destination_blob_name ''m1'' 1 ''report.pdf'' = ''m1/1_report.pdf''"
    by (simp_all add: destination_blob_name_def str_of_nat.simps digit_char_def)
  from blob_key_unique_per_part [OF h, of "''m1''" "Some ''report.pdf''" "Some ''report.pdf''"] h s a
  show ?thesis by simp
qed

section \<open>What a pass leaves untouched\<close>

lemma get_attachment_frame:
  "get_attachment ev m a w = (r, w1) \<Longrightarrow> cursor w1 = cursor w \<and> gcs w1 = gcs w"
  by (auto simp: get_attachment_def Let_def split: response.splits attachment_data.splits)

lemma upload_to_gcs_cursor: "cursor (snd (upload_to_gcs cf ev name d ct w)) = cursor w"
  by (simp add: upload_to_gcs_def Let_def)

lemma upload_to_gcs_grows: "set (gcs w) \<subseteq> set (gcs (snd (upload_to_gcs cf ev name d ct w)))"
  by (auto simp: upload_to_gcs_def Let_def)

lemma process_part_cursor: "cursor (process_part cf ev m i p w) = cursor w"
  unfolding process_part_def
  by (auto simp: Let_def upload_to_gcs_cursor dest: get_attachment_frame
      split: option.splits prod.splits sum.splits)

lemma process_part_grows: "set (gcs w) \<subseteq> set (gcs (process_part cf ev m i p w))"
proof -
  have up: "x \<in> set (gcs w1) \<Longrightarrow> x \<in> set (gcs (snd (upload_to_gcs cf ev name d ct w1)))"
    for x w1 name d ct
    using upload_to_gcs_grows by blast
  show ?thesis
    unfolding process_part_def
    by (auto simp: Let_def up dest!: get_attachment_frame
        split: option.splits prod.splits sum.splits)
qed

lemma process_parts_cursor: "cursor (process_parts cf ev m i ps w) = cursor w"
  by (induction ps arbitrary: i w) (simp_all add: process_part_cursor)

lemma process_parts_grows: "set (gcs w) \<subseteq> set (gcs (process_parts cf ev m i ps w))"
proof (induction ps arbitrary: i w)
  case Nil
  show ?case by simp
next
  case (Cons p ps)
  have "set (gcs w) \<subseteq> set (gcs (process_part cf ev m i p w))" by (rule process_part_grows)
  also have "\<dots> \<subseteq> set (gcs (process_parts cf ev m (Suc i) ps (process_part cf ev m i p w)))"
    by (rule Cons.IH)
  finally show ?case by simp
qed

lemma get_message_frame:
  "get_message ev m w = (r, w1) \<Longrightarrow> cursor w1 = cursor w \<and> gcs w1 = gcs w"
  by (auto simp: get_message_def Let_def split: response.splits)

lemma process_messages_cursor: "cursor (snd (process_messages cf ev ids w)) = cursor w"
proof (induction ids arbitrary: w)
  case Nil
  show ?case by simp
next
  case (Cons m ids)
  obtain r w1 where g: "get_message ev m w = (r, w1)" by (cases "get_message ev m w")
  then have c: "cursor w1 = cursor w" by (simp add: get_message_frame)
  show ?case
    using g c Cons.IH
    by (auto simp: process_parts_cursor split: sum.splits option.splits)
qed

lemma process_messages_grows:
  "set (gcs w) \<subseteq> set (gcs (snd (process_messages cf ev ids w)))"
proof (induction ids arbitrary: w)
  case Nil
  show ?case by simp
next
  case (Cons m ids)
  obtain r w1 where g: "get_message ev m w = (r, w1)" by (cases "get_message ev m w")
  then have c: "gcs w1 = gcs w" by (simp add: get_message_frame)
  show ?case
  proof (cases r)
    case (Inl e)
    with g c show ?thesis by simp
  next
    case (Inr mo)
    show ?thesis
    proof (cases mo)
      case None
      with Inr g c Cons.IH [of w1] show ?thesis by simp
    next
      case (Some msg)
      have "set (gcs w) \<subseteq> set (gcs (process_parts cf ev m 0 (payload_parts msg) w1))"
        using c process_parts_grows [of w1] by simp
      also have "\<dots> \<subseteq> set (gcs (snd (process_messages cf ev ids
            (process_parts cf ev m 0 (payload_parts msg) w1))))"
        by (rule Cons.IH)
      finally show ?thesis using Some Inr g by simp
    qed
  qed
qed

lemma save_last_history_id_cases:
  "snd (save_last_history_id lib cf v w) = w
   \<or> (\<exists>k. py_int lib v = Inr k \<and> snd (save_last_history_id lib cf v w) = w\<lparr>cursor := Some k\<rparr>)"
  by (auto simp: save_last_history_id_def split: sum.splits)

lemma cursor_le_refl: "cursor_le c c"
  by (cases c) simp_all

lemma cursor_le_trans: "cursor_le a b \<Longrightarrow> cursor_le b c \<Longrightarrow> cursor_le a c"
  by (cases a; cases b; cases c) simp_all

section \<open>The stored cursor along a sequence of passes\<close>

lemma save_last_history_id_cursor_le:
  assumes "\<And>k. py_int lib v = Inr k \<Longrightarrow> cursor_le (cursor w) (Some k)"
  shows "cursor_le (cursor w) (cursor (snd (save_last_history_id lib cf v w)))"
  using assms save_last_history_id_cases [of lib cf v w]
  by (auto simp: cursor_le_refl)

lemma process_new_mail_cursor_le:
  assumes nn: "nonneg_cursor lib n" and dl: "delta_not_lower lib ev w"
  shows "cursor_le (cursor w) (cursor (snd (process_new_mail lib cf ev n w)))"
proof (cases "datastore_client cf")
  case False
  then show ?thesis by (simp add: process_new_mail_def cursor_le_refl)
next
  case ds: True
  show ?thesis
  proof (cases "cursor w")
    case None
    then show ?thesis by simp
  next
    case (Some s)
    show ?thesis
    proof (cases "s = 0")
      case True
      have "cursor_le (cursor w) (cursor (snd (save_last_history_id lib cf n w)))"
      proof (rule save_last_history_id_cursor_le)
        fix k assume "py_int lib n = Inr k"
        with nn have "0 \<le> k" by (simp add: nonneg_cursor_def)
        with Some True show "cursor_le (cursor w) (Some k)" by simp
      qed
      with ds Some True show ?thesis
        by (simp add: process_new_mail_def get_last_history_id_def)
    next
      case nz: False
      show ?thesis
      proof (cases "py_int lib n")
        case (Inl e)
        with ds Some nz show ?thesis
          by (simp add: process_new_mail_def get_last_history_id_def cursor_le_refl)
      next
        case (Inr cur)
        show ?thesis
        proof (cases "cur \<le> s")
          case True
          with ds Some nz Inr show ?thesis
            by (simp add: process_new_mail_def get_last_history_id_def cursor_le_refl)
        next
          case gt: False
          let ?w1 = "w\<lparr>calls := HistoryList s # calls w\<rparr>"
          have c1: "cursor ?w1 = Some s" using Some by simp
          show ?thesis
          proof (cases "history_list ev s")
            case (HttpErr c)
            with ds Some nz Inr gt show ?thesis
              by (simp add: process_new_mail_def get_last_history_id_def Let_def)
          next
            case OtherExc
            with ds Some nz Inr gt show ?thesis
              by (simp add: process_new_mail_def get_last_history_id_def Let_def)
          next
            case (Ok h)
            let ?new = "case historyId h of None \<Rightarrow> JNum s | Some v \<Rightarrow> v"
            show ?thesis
            proof (cases "history h = []")
              case True
              have "cursor_le (Some s) (cursor (snd (save_last_history_id lib cf ?new ?w1)))"
                if "py_int lib ?new = Inr k" "s < k" for k
                using that save_last_history_id_cases [of lib cf ?new ?w1] Some
                by auto
              with ds Some nz Inr gt Ok True show ?thesis
                by (auto simp: process_new_mail_def get_last_history_id_def Let_def
                    split: sum.splits)
            next
              case ne: False
              obtain r w2 where pm: "process_messages cf ev (collect_message_ids (history h)) ?w1 = (r, w2)"
                by (cases "process_messages cf ev (collect_message_ids (history h)) ?w1")
              with process_messages_cursor [of cf ev "collect_message_ids (history h)" ?w1] c1
              have c2: "cursor w2 = Some s" by simp
              have sv: "cursor_le (cursor w2) (cursor (snd (save_last_history_id lib cf ?new w2)))"
              proof (rule save_last_history_id_cursor_le)
                fix k assume k: "py_int lib ?new = Inr k"
                have "s \<le> k"
                proof (cases "historyId h")
                  case None
                  with k show ?thesis by simp
                next
                  case (Some v)
                  with k dl \<open>cursor w = Some s\<close> Ok ne show ?thesis
                    by (simp add: delta_not_lower_def)
                qed
                with c2 show "cursor_le (cursor w2) (Some k)" by simp
              qed
              show ?thesis
              proof (cases r)
                case Returned
                with ds Some nz Inr gt Ok ne pm sv c2 show ?thesis
                  by (simp add: process_new_mail_def get_last_history_id_def Let_def)
              next
                case (Raised e)
                with ds Some nz Inr gt Ok ne pm c2 show ?thesis
                  by (simp add: process_new_mail_def get_last_history_id_def Let_def)
              qed
            qed
          qed
        qed
      qed
    qed
  qed
qed

lemma cursor_trace_above:
  "passes_ok lib cf ns w \<Longrightarrow> c \<in> set (cursor_trace lib cf ns w) \<Longrightarrow> cursor_le (cursor w) c"
proof (induction ns arbitrary: w)
  case Nil
  then show ?case by simp
next
  case (Cons a ns)
  obtain ev n where a: "a = (ev, n)" by (cases a)
  let ?w' = "snd (process_new_mail lib cf ev n w)"
  from Cons.prems(1) a have ok: "nonneg_cursor lib n" "delta_not_lower lib ev w"
    "passes_ok lib cf ns ?w'" by simp_all
  have step: "cursor_le (cursor w) (cursor ?w')"
    using ok(1,2) by (rule process_new_mail_cursor_le)
  from Cons.prems(2) a consider "c = cursor ?w'" | "c \<in> set (cursor_trace lib cf ns ?w')"
    by (auto simp: Let_def)
  then show ?case
  proof cases
    case 1
    with step show ?thesis by simp
  next
    case 2
    with Cons.IH ok(3) have "cursor_le (cursor ?w') c" by blast
    with step show ?thesis by (rule cursor_le_trans)
  qed
qed

lemma cursor_trace_sorted:
  "passes_ok lib cf ns w \<Longrightarrow> sorted_wrt cursor_le (cursor w # cursor_trace lib cf ns w)"
proof (induction ns arbitrary: w)
  case Nil
  then show ?case by simp
next
  case (Cons a ns)
  obtain ev n where a: "a = (ev, n)" by (cases a)
  let ?w' = "snd (process_new_mail lib cf ev n w)"
  from Cons.prems a have ok: "passes_ok lib cf ns ?w'" by simp
  have "\<forall>c \<in> set (cursor_trace lib cf (a # ns) w). cursor_le (cursor w) c"
    using cursor_trace_above [OF Cons.prems] by blast
  moreover have "sorted_wrt cursor_le (cursor ?w' # cursor_trace lib cf ns ?w')"
    using ok by (rule Cons.IH)
  ultimately show ?case using a by (simp add: Let_def)
qed

section \<open>Passes that fetch no message\<close>

lemma world_cursor_same: "cursor w = c \<Longrightarrow> w\<lparr>cursor := c\<rparr> = w"
  by (cases w) simp

text \<open>
  Claim C3. The store holds \<^term>\<open>s\<close> and the notification carries a cursor \<^term>\<open>k\<close>,
  not negative as every cursor is, with \<^term>\<open>k \<le> s\<close>. The pass returns and the state is
  the one it started from: the same stored cursor, no call made, nothing uploaded.
\<close>

theorem stale_notification_is_noop:
  assumes "datastore_client cf" and "cursor w = Some s" and "py_int lib n = Inr k"
    and "0 \<le> k" and "k \<le> s"
  shows "process_new_mail lib cf ev n w = (Returned, w)"
proof (cases "s = 0")
  case True
  with assms have "k = 0" by simp
  with assms True have "w\<lparr>cursor := Some k\<rparr> = w" by (simp add: world_cursor_same)
  with assms True show ?thesis
    by (simp add: process_new_mail_def get_last_history_id_def save_last_history_id_def)
next
  case False
  with assms show ?thesis
    by (simp add: process_new_mail_def get_last_history_id_def)
qed

text \<open>
  Claim C4. With no stored cursor, the pass stores the notification's cursor and
  returns; it makes no call and uploads nothing.
\<close>

theorem baseline_on_empty_store:
  assumes "datastore_client cf" and "cursor w = None" and "py_int lib n = Inr k"
  shows "process_new_mail lib cf ev n w = (Returned, w\<lparr>cursor := Some k\<rparr>)
    \<and> cursor (snd (process_new_mail lib cf ev n w)) = Some k
    \<and> calls (snd (process_new_mail lib cf ev n w)) = calls w
    \<and> gcs (snd (process_new_mail lib cf ev n w)) = gcs w"
  using assms
  by (simp add: process_new_mail_def get_last_history_id_def save_last_history_id_def)

text \<open>
  Claim C10. A stored cursor of 0 is read as no cursor: the pass stores the
  notification's cursor, whatever it is, compares nothing and makes no call.
\<close>

theorem zero_cursor_treated_as_absent:
  assumes "datastore_client cf" and "cursor w = Some 0" and "py_int lib n = Inr k"
  shows "process_new_mail lib cf ev n w = (Returned, w\<lparr>cursor := Some k\<rparr>)
    \<and> calls (snd (process_new_mail lib cf ev n w)) = calls w"
  using assms
  by (simp add: process_new_mail_def get_last_history_id_def save_last_history_id_def)

text \<open>
  Claim C2, as amended. When \<^verbatim>\<open>history.list\<close> fails with an \<^verbatim>\<open>HttpError\<close>, which is
  how the provider reports a start cursor that has left its retention window, the pass
  raises that error again: the history call is the only call made, nothing is uploaded,
  the stored cursor keeps its value, and the endpoint answers 500 for a notification of
  the monitored address.
\<close>

theorem history_fetch_error_is_fatal:
  assumes "datastore_client cf" and "cursor w = Some s" and "s \<noteq> 0"
    and "py_int lib n = Inr k" and "s < k" and "history_list ev s = HttpErr c"
  shows "process_new_mail lib cf ev n w
           = (Raised (HttpError c), w\<lparr>calls := HistoryList s # calls w\<rparr>)
    \<and> cursor (snd (process_new_mail lib cf ev n w)) = Some s
    \<and> gcs (snd (process_new_mail lib cf ev n w)) = gcs w
    \<and> (TARGET_USER_EMAIL cf = Some a \<and> gmail_service ev \<longrightarrow>
         fst (handle_notification lib cf ev
                (JObj [(''emailAddress'', JStr a), (''historyId'', n)]) w) = 500)"
proof -
  from assms have p: "process_new_mail lib cf ev n w
           = (Raised (HttpError c), w\<lparr>calls := HistoryList s # calls w\<rparr>)"
    by (simp add: process_new_mail_def get_last_history_id_def Let_def)
  have "fst (handle_notification lib cf ev
                (JObj [(''emailAddress'', JStr a), (''historyId'', n)]) w) = 500"
    if "TARGET_USER_EMAIL cf = Some a" "gmail_service ev"
    using that p by (simp add: handle_notification_def dict_get_def Let_def)
  with p assms(2) show ?thesis by simp
qed

section \<open>What a pass uploads and fetches\<close>

lemma process_part_uploads:
  assumes "storage_client cf"
    and "filename p = Some f" and "f \<noteq> []"
    and "attachmentId p = Some a" and "a \<noteq> []"
    and "attachments_get ev m a = Ok (Bytes d)" and "d \<noteq> []"
    and "upload_from_string ev (destination_blob_name m i (sanitize_filename (Some f)))"
  shows "(destination_blob_name m i (sanitize_filename (Some f)), d, part_content_type p)
           \<in> set (gcs (process_part cf ev m i p w))"
  using assms
  by (simp add: process_part_def get_attachment_def upload_to_gcs_def Let_def)

lemma process_parts_uploads:
  assumes "storage_client cf"
    and "j < length ps"
    and "filename (ps ! j) = Some f" and "f \<noteq> []"
    and "attachmentId (ps ! j) = Some a" and "a \<noteq> []"
    and "attachments_get ev m a = Ok (Bytes d)" and "d \<noteq> []"
    and "upload_from_string ev (destination_blob_name m (i0 + j) (sanitize_filename (Some f)))"
  shows "(destination_blob_name m (i0 + j) (sanitize_filename (Some f)), d,
            part_content_type (ps ! j))
           \<in> set (gcs (process_parts cf ev m i0 ps w))"
  using assms(2,3,5,9)
proof (induction ps arbitrary: i0 j w)
  case Nil
  then show ?case by simp
next
  case (Cons p ps)
  show ?case
  proof (cases j)
    case 0
    with Cons.prems have "filename p = Some f" "attachmentId p = Some a"
      "upload_from_string ev (destination_blob_name m i0 (sanitize_filename (Some f)))"
      by simp_all
    with assms(1,4,6,7,8)
    have "(destination_blob_name m i0 (sanitize_filename (Some f)), d, part_content_type p)
           \<in> set (gcs (process_part cf ev m i0 p w))"
      by (intro process_part_uploads) simp_all
    with process_parts_grows [of "process_part cf ev m i0 p w" cf ev m "Suc i0" ps]
    show ?thesis using 0 by auto
  next
    case (Suc j')
    with Cons.prems have "j' < length ps" "filename (ps ! j') = Some f"
      "attachmentId (ps ! j') = Some a"
      "upload_from_string ev (destination_blob_name m (Suc i0 + j') (sanitize_filename (Some f)))"
      by simp_all
    then have "(destination_blob_name m (Suc i0 + j') (sanitize_filename (Some f)), d,
            part_content_type (ps ! j'))
           \<in> set (gcs (process_parts cf ev m (Suc i0) ps (process_part cf ev m i0 p w)))"
      by (rule Cons.IH)
    with Suc show ?thesis by simp
  qed
qed

lemma process_messages_returns:
  "\<forall>m \<in> set ids. messages_get ev m \<noteq> OtherExc \<Longrightarrow> fst (process_messages cf ev ids w) = Returned"
  by (induction ids arbitrary: w)
    (auto simp: get_message_def Let_def split: response.splits)

lemma process_messages_uploads:
  assumes "\<forall>m \<in> set ids. messages_get ev m \<noteq> OtherExc"
    and "m \<in> set ids" and "messages_get ev m = Ok msg"
    and "\<And>w'. x \<in> set (gcs (process_parts cf ev m 0 (payload_parts msg) w'))"
  shows "x \<in> set (gcs (snd (process_messages cf ev ids w)))"
  using assms(1,2)
proof (induction ids arbitrary: w)
  case Nil
  then show ?case by simp
next
  case (Cons m' ids)
  let ?w1 = "w\<lparr>calls := MessagesGet m' # calls w\<rparr>"
  show ?case
  proof (cases "m' = m")
    case True
    have "x \<in> set (gcs (process_parts cf ev m 0 (payload_parts msg) ?w1))" by (rule assms(4))
    with process_messages_grows have "x \<in> set (gcs (snd (process_messages cf ev ids
            (process_parts cf ev m 0 (payload_parts msg) ?w1))))" by blast
    with True assms(3) show ?thesis by (simp add: get_message_def Let_def)
  next
    case False
    with Cons.prems have in_rest: "m \<in> set ids" and ok: "\<forall>m \<in> set ids. messages_get ev m \<noteq> OtherExc"
      and ok': "messages_get ev m' \<noteq> OtherExc" by simp_all
    from Cons.IH [OF ok in_rest] have "x \<in> set (gcs (snd (process_messages cf ev ids w')))" for w' .
    with ok' show ?thesis
      by (cases "messages_get ev m'") (simp_all add: get_message_def Let_def)
  qed
qed

lemma set_fold_add_message_id:
  "set (fold add_message_id mas acc) =
     set acc \<union> {i. \<exists>msg. Some msg \<in> set mas \<and> ref_id msg = Some i
                    \<and> ''INBOX'' \<in> set (labelIds msg)}"
proof (induction mas arbitrary: acc)
  case Nil
  show ?case by simp
next
  case (Cons ma mas)
  show ?case
    unfolding fold_simps Cons.IH
    by (auto simp: add_message_id_def split: option.splits)
qed

lemma distinct_fold_add_message_id:
  "distinct acc \<Longrightarrow> distinct (fold add_message_id mas acc)"
proof (induction mas arbitrary: acc)
  case Nil
  then show ?case by simp
next
  case (Cons ma mas)
  from Cons.prems have "distinct (add_message_id ma acc)"
    by (auto simp: add_message_id_def split: option.splits)
  then show ?case by (simp add: Cons.IH)
qed

lemma set_fold_changes:
  "set (fold (\<lambda>change ids. fold add_message_id (messagesAdded change) ids) changes acc) =
     set acc \<union> {i. \<exists>change \<in> set changes. \<exists>msg. Some msg \<in> set (messagesAdded change)
                    \<and> ref_id msg = Some i \<and> ''INBOX'' \<in> set (labelIds msg)}"
proof (induction changes arbitrary: acc)
  case Nil
  show ?case by simp
next
  case (Cons ch changes)
  show ?case
    unfolding fold_simps Cons.IH set_fold_add_message_id
    by auto
qed

lemma distinct_fold_changes:
  "distinct acc \<Longrightarrow>
     distinct (fold (\<lambda>change ids. fold add_message_id (messagesAdded change) ids) changes acc)"
  by (induction changes arbitrary: acc) (simp_all add: distinct_fold_add_message_id)

lemma process_part_fetches:
  "message_fetches (calls (process_part cf ev m i p w)) = message_fetches (calls w)"
  unfolding process_part_def
  by (auto simp: Let_def get_attachment_def upload_to_gcs_def
      split: option.splits response.splits attachment_data.splits)

lemma process_parts_fetches:
  "message_fetches (calls (process_parts cf ev m i ps w)) = message_fetches (calls w)"
  by (induction ps arbitrary: i w) (simp_all add: process_part_fetches)

lemma process_messages_fetches:
  "\<exists>k. message_fetches (calls (snd (process_messages cf ev ids w)))
         = rev (take k ids) @ message_fetches (calls w)"
proof (induction ids arbitrary: w)
  case Nil
  show ?case by simp
next
  case (Cons m ids)
  let ?w1 = "w\<lparr>calls := MessagesGet m # calls w\<rparr>"
  show ?case
  proof (cases "messages_get ev m")
    case (Ok msg)
    from Cons.IH [of "process_parts cf ev m 0 (payload_parts msg) ?w1"]
    obtain k where "message_fetches (calls (snd (process_messages cf ev ids
          (process_parts cf ev m 0 (payload_parts msg) ?w1))))
        = rev (take k ids) @ m # message_fetches (calls w)"
      by (auto simp: process_parts_fetches)
    with Ok have "message_fetches (calls (snd (process_messages cf ev (m # ids) w)))
        = rev (take (Suc k) (m # ids)) @ message_fetches (calls w)"
      by (simp add: get_message_def Let_def)
    then show ?thesis by blast
  next
    case (HttpErr c)
    from Cons.IH [of ?w1]
    obtain k where "message_fetches (calls (snd (process_messages cf ev ids ?w1)))
        = rev (take k ids) @ m # message_fetches (calls w)"
      by auto
    with HttpErr have "message_fetches (calls (snd (process_messages cf ev (m # ids) w)))
        = rev (take (Suc k) (m # ids)) @ message_fetches (calls w)"
      by (simp add: get_message_def Let_def)
    then show ?thesis by blast
  next
    case OtherExc
    then have "message_fetches (calls (snd (process_messages cf ev (m # ids) w)))
        = rev (take (Suc 0) (m # ids)) @ message_fetches (calls w)"
      by (simp add: get_message_def Let_def)
    then show ?thesis by blast
  qed
qed

lemma save_last_history_id_calls:
  "calls (snd (save_last_history_id lib cf v w)) = calls w"
  by (simp add: save_last_history_id_def split: sum.splits)

lemma process_new_mail_fetches:
  "message_fetches (calls (snd (process_new_mail lib cf ev n w))) = message_fetches (calls w)
   \<or> (\<exists>s h k. cursor w = Some s \<and> history_list ev s = Ok h \<and>
        message_fetches (calls (snd (process_new_mail lib cf ev n w)))
          = rev (take k (collect_message_ids (history h))) @ message_fetches (calls w))"
proof (cases "datastore_client cf")
  case False
  then show ?thesis by (simp add: process_new_mail_def)
next
  case ds: True
  show ?thesis
  proof (cases "cursor w")
    case None
    with ds show ?thesis
      by (simp add: process_new_mail_def get_last_history_id_def save_last_history_id_calls)
  next
    case (Some s)
    show ?thesis
    proof (cases "s = 0")
      case True
      with ds Some show ?thesis
        by (simp add: process_new_mail_def get_last_history_id_def save_last_history_id_calls)
    next
      case nz: False
      show ?thesis
      proof (cases "py_int lib n")
        case (Inl e)
        with ds Some nz show ?thesis
          by (simp add: process_new_mail_def get_last_history_id_def)
      next
        case (Inr cur)
        show ?thesis
        proof (cases "cur \<le> s")
          case True
          with ds Some nz Inr show ?thesis
            by (simp add: process_new_mail_def get_last_history_id_def)
        next
          case gt: False
          let ?w1 = "w\<lparr>calls := HistoryList s # calls w\<rparr>"
          show ?thesis
          proof (cases "history_list ev s")
            case (HttpErr c)
            with ds Some nz Inr gt show ?thesis
              by (simp add: process_new_mail_def get_last_history_id_def Let_def)
          next
            case OtherExc
            with ds Some nz Inr gt show ?thesis
              by (simp add: process_new_mail_def get_last_history_id_def Let_def)
          next
            case (Ok h)
            show ?thesis
            proof (cases "history h = []")
              case True
              with ds Some nz Inr gt Ok show ?thesis
                by (simp add: process_new_mail_def get_last_history_id_def Let_def
                    save_last_history_id_calls split: sum.splits)
            next
              case ne: False
              obtain r w2 where pm:
                "process_messages cf ev (collect_message_ids (history h)) ?w1 = (r, w2)"
                by (cases "process_messages cf ev (collect_message_ids (history h)) ?w1")
              from process_messages_fetches [of cf ev "collect_message_ids (history h)" ?w1] pm
              obtain k where k: "message_fetches (calls w2)
                  = rev (take k (collect_message_ids (history h))) @ message_fetches (calls w)"
                by auto
              have "message_fetches (calls (snd (process_new_mail lib cf ev n w)))
                  = message_fetches (calls w2)"
                using ds Some nz Inr gt Ok ne pm
                by (cases r)
                  (simp_all add: process_new_mail_def get_last_history_id_def Let_def
                    save_last_history_id_calls)
              with k Some Ok show ?thesis by auto
            qed
          qed
        qed
      qed
    qed
  qed
qed

text \<open>
  Claim C6. The identifiers collected from the change records are exactly those of the
  messages in a \<^verbatim>\<open>messagesAdded\<close> entry that have an \<^verbatim>\<open>id\<close> and the label
  \<^verbatim>\<open>INBOX\<close>; each is collected once; and a pass that starts with an empty call log
  never calls \<^verbatim>\<open>messages.get\<close> twice with the same identifier.
\<close>

theorem inbox_messages_collected_once:
  "set (collect_message_ids changes)
     = {i. \<exists>change \<in> set changes. \<exists>msg. Some msg \<in> set (messagesAdded change)
             \<and> ref_id msg = Some i \<and> ''INBOX'' \<in> set (labelIds msg)}
   \<and> distinct (collect_message_ids changes)
   \<and> (calls w = [] \<longrightarrow>
        distinct (message_fetches (calls (snd (process_new_mail lib cf ev n w)))))"
proof -
  have d: "distinct (collect_message_ids changes)" for changes
    by (simp add: collect_message_ids_def distinct_fold_changes)
  have "distinct (message_fetches (calls (snd (process_new_mail lib cf ev n w))))"
    if "calls w = []"
    using process_new_mail_fetches [of lib cf ev n w] that d
    by (auto simp: distinct_take)
  with d show ?thesis
    by (simp add: collect_message_ids_def set_fold_changes)
qed

text \<open>
  The failures a pass does isolate. A pass fetches a delta with change records whose
  reported \<^verbatim>\<open>historyId\<close> is accepted by \<^verbatim>\<open>int\<close>, and no \<^verbatim>\<open>messages.get\<close> call
  raises anything but an \<^verbatim>\<open>HttpError\<close>. Then, whichever detail fetches fail with an
  \<^verbatim>\<open>HttpError\<close> and whichever attachment fetches or uploads fail in any way, the pass
  returns, the stored cursor is the reported one, and every part of every fetched message
  that has a filename, an attachment identifier, fetched bytes and a successful upload is
  in the bucket under its blob name.
\<close>

theorem partial_failure_isolation:
  assumes "datastore_client cf" and "storage_client cf"
    and "cursor w = Some s" and "s \<noteq> 0" and "py_int lib n = Inr k" and "s < k"
    and "history_list ev s = Ok h" and "history h \<noteq> []"
    and "py_int lib (case historyId h of None \<Rightarrow> JNum s | Some v \<Rightarrow> v) = Inr c"
    and "\<forall>m \<in> set (collect_message_ids (history h)). messages_get ev m \<noteq> OtherExc"
  shows "fst (process_new_mail lib cf ev n w) = Returned
    \<and> cursor (snd (process_new_mail lib cf ev n w)) = Some c
    \<and> (\<forall>m msg i f a d.
          m \<in> set (collect_message_ids (history h)) \<and> messages_get ev m = Ok msg
          \<and> i < length (payload_parts msg)
          \<and> filename (payload_parts msg ! i) = Some f \<and> f \<noteq> []
          \<and> attachmentId (payload_parts msg ! i) = Some a \<and> a \<noteq> []
          \<and> attachments_get ev m a = Ok (Bytes d) \<and> d \<noteq> []
          \<and> upload_from_string ev (destination_blob_name m i (sanitize_filename (Some f)))
          \<longrightarrow> (destination_blob_name m i (sanitize_filename (Some f)), d,
                  part_content_type (payload_parts msg ! i))
                \<in> set (gcs (snd (process_new_mail lib cf ev n w))))"
proof -
  let ?w1 = "w\<lparr>calls := HistoryList s # calls w\<rparr>"
  let ?ids = "collect_message_ids (history h)"
  let ?new = "case historyId h of None \<Rightarrow> JNum s | Some v \<Rightarrow> v"
  obtain r w2 where pm: "process_messages cf ev ?ids ?w1 = (r, w2)"
    by (cases "process_messages cf ev ?ids ?w1")
  from process_messages_returns [OF assms(10), of cf ?w1] pm have r: "r = Returned" by simp
  from assms(1,3,4,5,6,7,8,9) pm r
  have run: "process_new_mail lib cf ev n w = (Returned, w2\<lparr>cursor := Some c\<rparr>)"
    by (simp add: process_new_mail_def get_last_history_id_def Let_def
        save_last_history_id_def)
  have "(destination_blob_name m i (sanitize_filename (Some f)), d,
                  part_content_type (payload_parts msg ! i)) \<in> set (gcs w2)"
    if "m \<in> set ?ids" "messages_get ev m = Ok msg" "i < length (payload_parts msg)"
      "filename (payload_parts msg ! i) = Some f" "f \<noteq> []"
      "attachmentId (payload_parts msg ! i) = Some a" "a \<noteq> []"
      "attachments_get ev m a = Ok (Bytes d)" "d \<noteq> []"
      "upload_from_string ev (destination_blob_name m i (sanitize_filename (Some f)))"
    for m msg i f a d
  proof -
    have "(destination_blob_name m (0 + i) (sanitize_filename (Some f)), d,
            part_content_type (payload_parts msg ! i))
           \<in> set (gcs (process_parts cf ev m 0 (payload_parts msg) w'))" for w'
      using assms(2) that(3-9) by (rule process_parts_uploads) (simp add: that(10))
    then have "(destination_blob_name m i (sanitize_filename (Some f)), d,
            part_content_type (payload_parts msg ! i))
           \<in> set (gcs (snd (process_messages cf ev ?ids ?w1)))"
      using process_messages_uploads [OF assms(10) that(1,2)] by simp
    with pm show ?thesis by simp
  qed
  with run show ?thesis by simp
qed

section \<open>Examples and the claims about sequences\<close>

lemmas pass_defs =
  process_new_mail_def get_last_history_id_def save_last_history_id_def
  process_part_def get_message_def get_attachment_def upload_to_gcs_def
  collect_message_ids_def add_message_id_def part_content_type_def
  destination_blob_name_def

lemmas demo_defs = demo_lib_def demo_cf_def demo_env_def demo_history_def demo_message_def

lemma demo_ids: "collect_message_ids demo_history = [''m2'', ''m1'']"
  by (simp add: collect_message_ids_def add_message_id_def demo_history_def)

lemma demo_name: "sanitize_filename (Some ''report (final)!.pdf'') = ''report_final_.pdf''"
  by (simp add: sanitize_filename_def replace_unsafe_def safe_char_def strip_seps_def
        strip_char_def)

lemma demo_pass:
  "process_new_mail demo_lib demo_cf demo_env (JNum 120) \<lparr>cursor = Some 100, gcs = [], calls = []\<rparr>
   = (Returned,
      \<lparr>cursor = Some 125,
       gcs = [(''m1/1_report_final_.pdf'', ''%PDF'', ''application/pdf'')],
       calls = [BlobUpload ''m1/1_report_final_.pdf'', AttachmentsGet ''m1'' ''att1'',
                MessagesGet ''m1'', MessagesGet ''m2'', HistoryList 100]\<rparr>)"
  by (simp add: pass_defs demo_defs demo_name Let_def str_of_nat.simps digit_char_def)


lemma cursor_process_all:
  "cursor (process_all lib cf ns w) = last (cursor w # cursor_trace lib cf ns w)"
  by (induction ns arbitrary: w) (auto simp: Let_def)

text \<open>
  What every sequence of passes does keep. Take a sequence in which every notification
  cursor that \<^verbatim>\<open>int\<close> accepts is not negative, and in which every history answer that
  carries change records reports a \<^verbatim>\<open>historyId\<close> not below the cursor it was asked for
  (\<^const>\<open>passes_ok\<close>). Then every value the stored cursor takes is at least every earlier
  one, passes that raise included. The pass does not check the second condition itself:
  the theorem after the examples shows what happens without it.
\<close>

theorem cursor_never_decreases:
  "passes_ok lib cf ns w \<Longrightarrow>
     sorted_wrt cursor_le (cursor w # cursor_trace lib cf ns w)
     \<and> cursor_le (cursor w) (cursor (process_all lib cf ns w))"
proof -
  assume ok: "passes_ok lib cf ns w"
  then have s: "sorted_wrt cursor_le (cursor w # cursor_trace lib cf ns w)"
    by (rule cursor_trace_sorted)
  have "cursor_le (cursor w) (last (cursor w # cursor_trace lib cf ns w))"
  proof (cases "cursor_trace lib cf ns w = []")
    case True
    then show ?thesis by (simp add: cursor_le_refl)
  next
    case False
    then have "last (cursor w # cursor_trace lib cf ns w) \<in> set (cursor_trace lib cf ns w)"
      by simp
    with ok show ?thesis by (simp only: cursor_trace_above)
  qed
  with s show ?thesis by (simp only: cursor_process_all)
qed

lemma demo_pass_expired:
  "process_new_mail demo_lib demo_cf (demo_env\<lparr>history_list := \<lambda>start. HttpErr 404\<rparr>) (JNum 120)
     \<lparr>cursor = Some 100, gcs = [], calls = []\<rparr>
   = (Raised (HttpError 404), \<lparr>cursor = Some 100, gcs = [], calls = [HistoryList 100]\<rparr>)"
  by (simp add: pass_defs demo_defs Let_def)

text \<open>
  Four passes on an empty store: the baseline at 100, a stale notification, a pass that
  fetches a delta and commits 125, and a pass whose history fetch fails.
\<close>

theorem cursor_never_decreases_witness:
  "passes_ok demo_lib demo_cf
     [(demo_env, JNum 100), (demo_env, JNum 90), (demo_env, JNum 120),
      (demo_env\<lparr>history_list := \<lambda>start. HttpErr 404\<rparr>, JNum 130)]
     \<lparr>cursor = None, gcs = [], calls = []\<rparr>
   \<and> cursor_trace demo_lib demo_cf
     [(demo_env, JNum 100), (demo_env, JNum 90), (demo_env, JNum 120),
      (demo_env\<lparr>history_list := \<lambda>start. HttpErr 404\<rparr>, JNum 130)]
     \<lparr>cursor = None, gcs = [], calls = []\<rparr> = [Some 100, Some 100, Some 125, Some 125]
   \<and> sorted_wrt cursor_le [None, Some 100, Some 100, Some 125, Some 125]"
proof -
  let ?ns = "[(demo_env, JNum 100), (demo_env, JNum 90), (demo_env, JNum 120),
      (demo_env\<lparr>history_list := \<lambda>start. HttpErr 404\<rparr>, JNum 130)]"
  let ?w = "\<lparr>cursor = None, gcs = [], calls = []\<rparr>"
  have p1: "process_new_mail demo_lib demo_cf demo_env (JNum 100) ?w
      = (Returned, \<lparr>cursor = Some 100, gcs = [], calls = []\<rparr>)"
    by (simp add: pass_defs demo_defs)
  have p2: "process_new_mail demo_lib demo_cf demo_env (JNum 90)
        \<lparr>cursor = Some 100, gcs = [], calls = []\<rparr>
      = (Returned, \<lparr>cursor = Some 100, gcs = [], calls = []\<rparr>)"
    by (simp add: pass_defs demo_defs)
  have p4: "cursor (snd (process_new_mail demo_lib demo_cf
        (demo_env\<lparr>history_list := \<lambda>start. HttpErr 404\<rparr>) (JNum 130)
        \<lparr>cursor = Some 125,
          gcs = [(''m1/1_report_final_.pdf'', ''%PDF'', ''application/pdf'')],
          calls = [BlobUpload ''m1/1_report_final_.pdf'', AttachmentsGet ''m1'' ''att1'',
                MessagesGet ''m1'', MessagesGet ''m2'', HistoryList 100]\<rparr>)) = Some 125"
    by (simp add: pass_defs demo_defs Let_def)
  have ok: "passes_ok demo_lib demo_cf ?ns ?w"
    by (simp add: p1 p2 demo_pass nonneg_cursor_def delta_not_lower_def)
      (simp add: demo_defs)
  have tr: "cursor_trace demo_lib demo_cf ?ns ?w = [Some 100, Some 100, Some 125, Some 125]"
    by (simp add: p1 p2 demo_pass p4 Let_def)
  from cursor_never_decreases [OF ok] ok tr show ?thesis by simp
qed


text \<open>
  The example of the specification: the store holds 50 and the notification carries 40.
\<close>

theorem stale_notification_is_noop_witness:
  "datastore_client demo_cf
   \<and> py_int demo_lib (JNum 40) = Inr 40 \<and> (0::int) \<le> 40 \<and> (40::int) \<le> 50
   \<and> process_new_mail demo_lib demo_cf demo_env (JNum 40) \<lparr>cursor = Some 50, gcs = [], calls = []\<rparr>
       = (Returned, \<lparr>cursor = Some 50, gcs = [], calls = []\<rparr>)"
proof -
  have h: "datastore_client demo_cf" "cursor \<lparr>cursor = Some 50, gcs = [], calls = []\<rparr> = Some 50"
    "py_int demo_lib (JNum 40) = Inr 40" "(0::int) \<le> 40" "(40::int) \<le> 50"
    by (simp_all add: demo_cf_def)
  from stale_notification_is_noop [OF h, of demo_env] h show ?thesis by simp
qed

text \<open>
  The example of the specification: an empty store and a notification that carries 100.
\<close>

theorem baseline_on_empty_store_witness:
  "datastore_client demo_cf
   \<and> py_int demo_lib (JNum 100) = Inr 100
   \<and> process_new_mail demo_lib demo_cf demo_env (JNum 100) \<lparr>cursor = None, gcs = [], calls = []\<rparr>
       = (Returned, \<lparr>cursor = Some 100, gcs = [], calls = []\<rparr>)"
proof -
  have h: "datastore_client demo_cf" "cursor \<lparr>cursor = None, gcs = [], calls = []\<rparr> = None"
    "py_int demo_lib (JNum 100) = Inr 100"
    by (simp_all add: demo_cf_def)
  from baseline_on_empty_store [OF h, of demo_env] h show ?thesis by simp
qed

text \<open>
  The store holds 0 and the notification carries 7: no history is fetched for the range
  from 0, and the store holds 7.
\<close>

theorem zero_cursor_treated_as_absent_witness:
  "datastore_client demo_cf
   \<and> py_int demo_lib (JNum 7) = Inr 7
   \<and> process_new_mail demo_lib demo_cf demo_env (JNum 7) \<lparr>cursor = Some 0, gcs = [], calls = []\<rparr>
       = (Returned, \<lparr>cursor = Some 7, gcs = [], calls = []\<rparr>)"
proof -
  have h: "datastore_client demo_cf" "cursor \<lparr>cursor = Some 0, gcs = [], calls = []\<rparr> = Some 0"
    "py_int demo_lib (JNum 7) = Inr 7"
    by (simp_all add: demo_cf_def)
  from zero_cursor_treated_as_absent [OF h, of demo_env] h show ?thesis by simp
qed

text \<open>
  The store holds 100, the notification carries 120 and \<^verbatim>\<open>history.list\<close> answers 404.
\<close>

theorem history_fetch_error_is_fatal_witness:
  "history_list (demo_env\<lparr>history_list := \<lambda>start. HttpErr 404\<rparr>) 100 = HttpErr 404
   \<and> TARGET_USER_EMAIL demo_cf = Some ''inbox@example.com''
   \<and> gmail_service (demo_env\<lparr>history_list := \<lambda>start. HttpErr 404\<rparr>)
   \<and> process_new_mail demo_lib demo_cf (demo_env\<lparr>history_list := \<lambda>start. HttpErr 404\<rparr>)
         (JNum 120) \<lparr>cursor = Some 100, gcs = [], calls = []\<rparr>
       = (Raised (HttpError 404), \<lparr>cursor = Some 100, gcs = [], calls = [HistoryList 100]\<rparr>)
   \<and> fst (handle_notification demo_lib demo_cf (demo_env\<lparr>history_list := \<lambda>start. HttpErr 404\<rparr>)
         (JObj [(''emailAddress'', JStr ''inbox@example.com''), (''historyId'', JNum 120)])
         \<lparr>cursor = Some 100, gcs = [], calls = []\<rparr>) = 500"
proof -
  let ?ev = "demo_env\<lparr>history_list := \<lambda>start. HttpErr 404\<rparr>"
  let ?w = "\<lparr>cursor = Some 100, gcs = [], calls = []\<rparr>"
  have h: "datastore_client demo_cf" "cursor ?w = Some 100" "(100::int) \<noteq> 0"
    "py_int demo_lib (JNum 120) = Inr 120" "(100::int) < 120" "history_list ?ev 100 = HttpErr 404"
    by (simp_all add: demo_cf_def)
  have t: "TARGET_USER_EMAIL demo_cf = Some ''inbox@example.com''" "gmail_service ?ev"
    by (simp_all add: demo_cf_def demo_env_def)
  from history_fetch_error_is_fatal [OF h, of "''inbox@example.com''"] h t show ?thesis by simp
qed

text \<open>
  Claim C2 as stated fails: on the answer 404 for an expired start cursor the pass
  raises, the stored cursor is still 100, and the endpoint answers 500.
\<close>

theorem expired_cursor_counterexample:
  "fst (process_new_mail demo_lib demo_cf (demo_env\<lparr>history_list := \<lambda>start. HttpErr 404\<rparr>)
         (JNum 120) \<lparr>cursor = Some 100, gcs = [], calls = []\<rparr>) = Raised (HttpError 404)
   \<and> cursor (snd (process_new_mail demo_lib demo_cf
         (demo_env\<lparr>history_list := \<lambda>start. HttpErr 404\<rparr>)
         (JNum 120) \<lparr>cursor = Some 100, gcs = [], calls = []\<rparr>)) = Some 100
   \<and> fst (handle_notification demo_lib demo_cf (demo_env\<lparr>history_list := \<lambda>start. HttpErr 404\<rparr>)
         (JObj [(''emailAddress'', JStr ''inbox@example.com''), (''historyId'', JNum 120)])
         \<lparr>cursor = Some 100, gcs = [], calls = []\<rparr>) = 500"
proof -
  have t: "TARGET_USER_EMAIL demo_cf = Some ''inbox@example.com''"
    "gmail_service (demo_env\<lparr>history_list := \<lambda>start. HttpErr 404\<rparr>)"
    by (simp_all add: demo_cf_def demo_env_def)
  show ?thesis
    by (simp add: demo_pass_expired handle_notification_def dict_get_def t)
qed

text \<open>
  The example history names \<^verbatim>\<open>m1\<close> twice: \<^verbatim>\<open>m1\<close> and \<^verbatim>\<open>m2\<close> are fetched once
  each, \<^verbatim>\<open>m3\<close> (spam) and \<^verbatim>\<open>m4\<close> (deleted) are not fetched.
\<close>

theorem inbox_messages_collected_once_witness:
  "calls \<lparr>cursor = Some 100, gcs = [], calls = []\<rparr> = []
   \<and> set (collect_message_ids demo_history) = {''m1'', ''m2''}
   \<and> distinct (collect_message_ids demo_history)
   \<and> message_fetches (calls (snd (process_new_mail demo_lib demo_cf demo_env (JNum 120)
         \<lparr>cursor = Some 100, gcs = [], calls = []\<rparr>))) = [''m1'', ''m2'']
   \<and> distinct (message_fetches (calls (snd (process_new_mail demo_lib demo_cf demo_env (JNum 120)
         \<lparr>cursor = Some 100, gcs = [], calls = []\<rparr>))))"
proof -
  let ?w = "\<lparr>cursor = Some 100, gcs = [], calls = []\<rparr>"
  have h: "calls ?w = []" by simp
  have s: "set (collect_message_ids demo_history) = {''m1'', ''m2''}"
    by (auto simp: demo_ids)
  have f: "message_fetches (calls (snd (process_new_mail demo_lib demo_cf demo_env (JNum 120) ?w)))
      = [''m1'', ''m2'']"
    by (simp add: demo_pass)
  from inbox_messages_collected_once [of demo_history ?w demo_lib demo_cf demo_env "JNum 120"] h s f
  show ?thesis by simp
qed

text \<open>
  The fetch of \<^verbatim>\<open>m2\<close> fails with an \<^verbatim>\<open>HttpError\<close>; the attachment of \<^verbatim>\<open>m1\<close> is
  uploaded and the cursor is committed to 125.
\<close>

theorem partial_failure_isolation_witness:
  "messages_get demo_env ''m2'' = HttpErr 500
   \<and> messages_get demo_env ''m1'' = Ok demo_message
   \<and> collect_message_ids demo_history = [''m2'', ''m1'']
   \<and> fst (process_new_mail demo_lib demo_cf demo_env (JNum 120)
         \<lparr>cursor = Some 100, gcs = [], calls = []\<rparr>) = Returned
   \<and> cursor (snd (process_new_mail demo_lib demo_cf demo_env (JNum 120)
         \<lparr>cursor = Some 100, gcs = [], calls = []\<rparr>)) = Some 125
   \<and> (''m1/1_report_final_.pdf'', ''%PDF'', ''application/pdf'')
       \<in> set (gcs (snd (process_new_mail demo_lib demo_cf demo_env (JNum 120)
         \<lparr>cursor = Some 100, gcs = [], calls = []\<rparr>)))"
proof -
  let ?w = "\<lparr>cursor = Some 100, gcs = [], calls = []\<rparr>"
  let ?h = "\<lparr>historyId = Some (JStr ''125''), history = demo_history\<rparr>"
  have h: "datastore_client demo_cf" "storage_client demo_cf" "cursor ?w = Some 100"
    "(100::int) \<noteq> 0" "py_int demo_lib (JNum 120) = Inr 120" "(100::int) < 120"
    "history_list demo_env 100 = Ok ?h" "history ?h \<noteq> []"
    "py_int demo_lib (case historyId ?h of None \<Rightarrow> JNum 100 | Some v \<Rightarrow> v) = Inr 125"
    "\<forall>m \<in> set (collect_message_ids (history ?h)). messages_get demo_env m \<noteq> OtherExc"
    by (simp_all add: demo_cf_def demo_env_def demo_lib_def demo_ids) (simp add: demo_history_def)
  have m: "messages_get demo_env ''m2'' = HttpErr 500" "messages_get demo_env ''m1'' = Ok demo_message"
    by (simp_all add: demo_env_def)
  have p: "''m1'' \<in> set (collect_message_ids (history ?h))"
    "(1::nat) < length (payload_parts demo_message)"
    "filename (payload_parts demo_message ! 1) = Some ''report (final)!.pdf''"
    "''report (final)!.pdf'' \<noteq> []"
    "attachmentId (payload_parts demo_message ! 1) = Some ''att1''" "''att1'' \<noteq> []"
    "attachments_get demo_env ''m1'' ''att1'' = Ok (Bytes ''%PDF'')" "''%PDF'' \<noteq> []"
    "upload_from_string demo_env
       (destination_blob_name ''m1'' 1 (sanitize_filename (Some ''report (final)!.pdf'')))"
    by (simp_all add: demo_ids demo_message_def demo_env_def)
  have n: "destination_blob_name ''m1'' 1 (sanitize_filename (Some ''report (final)!.pdf''))
      = ''m1/1_report_final_.pdf''"
    "part_content_type (payload_parts demo_message ! 1) = ''application/pdf''"
    by (simp_all add: demo_name destination_blob_name_def str_of_nat.simps digit_char_def
        part_content_type_def demo_message_def)
  from partial_failure_isolation [OF h]
  have c: "fst (process_new_mail demo_lib demo_cf demo_env (JNum 120) ?w) = Returned"
    "cursor (snd (process_new_mail demo_lib demo_cf demo_env (JNum 120) ?w)) = Some 125"
    and u: "\<And>m msg i f a d.
          m \<in> set (collect_message_ids (history ?h)) \<and> messages_get demo_env m = Ok msg
          \<and> i < length (payload_parts msg)
          \<and> filename (payload_parts msg ! i) = Some f \<and> f \<noteq> []
          \<and> attachmentId (payload_parts msg ! i) = Some a \<and> a \<noteq> []
          \<and> attachments_get demo_env m a = Ok (Bytes d) \<and> d \<noteq> []
          \<and> upload_from_string demo_env (destination_blob_name m i (sanitize_filename (Some f)))
          \<Longrightarrow> (destination_blob_name m i (sanitize_filename (Some f)), d,
                  part_content_type (payload_parts msg ! i))
                \<in> set (gcs (snd (process_new_mail demo_lib demo_cf demo_env (JNum 120) ?w)))"
    by blast+
  have "(destination_blob_name ''m1'' 1 (sanitize_filename (Some ''report (final)!.pdf'')), ''%PDF'',
                  part_content_type (payload_parts demo_message ! 1))
        \<in> set (gcs (snd (process_new_mail demo_lib demo_cf demo_env (JNum 120) ?w)))"
    by (rule u) (use p m in blast)
  with n have "(''m1/1_report_final_.pdf'', ''%PDF'', ''application/pdf'')
        \<in> set (gcs (snd (process_new_mail demo_lib demo_cf demo_env (JNum 120) ?w)))"
    by simp
  with c m demo_ids show ?thesis by simp
qed

text \<open>
  Claim C8. The code breaks the claim. The delta names \<^verbatim>\<open>m1\<close> and \<^verbatim>\<open>m2\<close>, and the
  detail fetch of \<^verbatim>\<open>m2\<close> fails with an exception that is not an \<^verbatim>\<open>HttpError\<close>.
  \<^verbatim>\<open>get_message\<close> does not catch it and line 218 stands in no \<^verbatim>\<open>try\<close>: the pass
  raises, and the stored cursor is still 100 and not the reported 125, in whatever order
  the two messages are taken. When it is the attachment fetch that raises such an
  exception, line 238 catches it: the pass returns and the cursor is committed to 125.
\<close>

theorem detail_fetch_exception_aborts_pass:
  "messages_get (demo_env\<lparr>messages_get := \<lambda>m. if m = ''m1'' then Ok demo_message else OtherExc\<rparr>)
      ''m2'' = OtherExc
   \<and> fst (process_new_mail demo_lib demo_cf
         (demo_env\<lparr>messages_get := \<lambda>m. if m = ''m1'' then Ok demo_message else OtherExc\<rparr>)
         (JNum 120) \<lparr>cursor = Some 100, gcs = [], calls = []\<rparr>) = Raised TransportError
   \<and> cursor (snd (process_new_mail demo_lib demo_cf
         (demo_env\<lparr>messages_get := \<lambda>m. if m = ''m1'' then Ok demo_message else OtherExc\<rparr>)
         (JNum 120) \<lparr>cursor = Some 100, gcs = [], calls = []\<rparr>)) = Some 100
   \<and> fst (process_new_mail demo_lib demo_cf
         (demo_env\<lparr>attachments_get := \<lambda>m a. OtherExc\<rparr>)
         (JNum 120) \<lparr>cursor = Some 100, gcs = [], calls = []\<rparr>) = Returned
   \<and> cursor (snd (process_new_mail demo_lib demo_cf
         (demo_env\<lparr>attachments_get := \<lambda>m a. OtherExc\<rparr>)
         (JNum 120) \<lparr>cursor = Some 100, gcs = [], calls = []\<rparr>)) = Some 125"
  by (simp add: pass_defs demo_defs Let_def)

section \<open>The push endpoint's answers\<close>

text \<open>
  Claim C5, as amended. With both clients constructed, the endpoint answers 400 and
  changes nothing when \<^verbatim>\<open>get_json\<close> returns a false value, when the envelope has no
  true \<^verbatim>\<open>message\<close>, when the message has no \<^verbatim>\<open>data\<close>, and when the decoded data is
  not JSON. Data that decodes to a JSON object whose \<^verbatim>\<open>emailAddress\<close> is absent or is
  not the monitored address is answered with 204.
\<close>

theorem malformed_push_rejected:
  assumes "datastore_client cf" and "storage_client cf"
  shows
    "(\<not> py_truthy envelope \<longrightarrow> process_pubsub_push lib cf ev envelope w = (400, w))
     \<and> (\<not> py_truthy (dict_get ekvs ''message'') \<longrightarrow>
          process_pubsub_push lib cf ev (JObj ekvs) w = (400, w))
     \<and> (dict_get ekvs ''message'' = JObj mkvs \<and> map_of mkvs ''data'' = None \<longrightarrow>
          process_pubsub_push lib cf ev (JObj ekvs) w = (400, w))
     \<and> (dict_get ekvs ''message'' = JObj mkvs \<and> map_of mkvs ''data'' = Some (JStr s)
          \<and> b64decode_utf8 lib s = Some t \<and> json_loads lib t = None \<longrightarrow>
          process_pubsub_push lib cf ev (JObj ekvs) w = (400, w))
     \<and> (dict_get ekvs ''message'' = JObj mkvs \<and> map_of mkvs ''data'' = Some (JStr s)
          \<and> b64decode_utf8 lib s = Some t \<and> json_loads lib t = Some (JObj nkvs)
          \<and> dict_get nkvs ''emailAddress''
                \<noteq> (case TARGET_USER_EMAIL cf of None \<Rightarrow> JNull | Some a \<Rightarrow> JStr a) \<longrightarrow>
          process_pubsub_push lib cf ev (JObj ekvs) w = (204, w))"
proof -
  have c1: "process_pubsub_push lib cf ev envelope w = (400, w)" if "\<not> py_truthy envelope"
    using assms that by (simp add: process_pubsub_push_def)
  have c2: "process_pubsub_push lib cf ev (JObj ekvs) w = (400, w)"
    if "\<not> py_truthy (dict_get ekvs ''message'')"
    using assms that by (simp add: process_pubsub_push_def Let_def)
  have c3: "process_pubsub_push lib cf ev (JObj ekvs) w = (400, w)"
    if "dict_get ekvs ''message'' = JObj mkvs" "map_of mkvs ''data'' = None"
    using assms that by (simp add: process_pubsub_push_def Let_def)
  have c4: "process_pubsub_push lib cf ev (JObj ekvs) w = (400, w)"
    if "dict_get ekvs ''message'' = JObj mkvs" "map_of mkvs ''data'' = Some (JStr s)"
      "b64decode_utf8 lib s = Some t" "json_loads lib t = None"
    using assms that by (simp add: process_pubsub_push_def Let_def)
  have c5: "process_pubsub_push lib cf ev (JObj ekvs) w = (204, w)"
    if "dict_get ekvs ''message'' = JObj mkvs" "map_of mkvs ''data'' = Some (JStr s)"
      "b64decode_utf8 lib s = Some t" "json_loads lib t = Some (JObj nkvs)"
      "dict_get nkvs ''emailAddress''
         \<noteq> (case TARGET_USER_EMAIL cf of None \<Rightarrow> JNull | Some a \<Rightarrow> JStr a)"
  proof (cases "mkvs = []")
    case True
    with that(2) show ?thesis by simp
  next
    case False
    from that(1) have "ekvs \<noteq> []" by (auto simp: dict_get_def)
    with False assms that show ?thesis
      by (simp add: process_pubsub_push_def handle_notification_def Let_def)
  qed
  from c1 c2 c3 c4 c5 show ?thesis by blast
qed

text \<open>
  A null body, an envelope without a message, a message without data, data that is not
  JSON, and data that is the empty JSON object.
\<close>

theorem malformed_push_rejected_witness:
  "datastore_client demo_cf \<and> storage_client demo_cf
   \<and> process_pubsub_push demo_lib demo_cf demo_env JNull
        \<lparr>cursor = Some 100, gcs = [], calls = []\<rparr>
       = (400, \<lparr>cursor = Some 100, gcs = [], calls = []\<rparr>)
   \<and> process_pubsub_push demo_lib demo_cf demo_env (JObj [(''subscription'', JStr ''gmail'')])
        \<lparr>cursor = Some 100, gcs = [], calls = []\<rparr>
       = (400, \<lparr>cursor = Some 100, gcs = [], calls = []\<rparr>)
   \<and> process_pubsub_push demo_lib demo_cf demo_env
        (JObj [(''message'', JObj [(''messageId'', JStr ''1'')])])
        \<lparr>cursor = Some 100, gcs = [], calls = []\<rparr>
       = (400, \<lparr>cursor = Some 100, gcs = [], calls = []\<rparr>)
   \<and> process_pubsub_push demo_lib demo_cf demo_env
        (JObj [(''message'', JObj [(''data'', JStr ''e3g=''), (''messageId'', JStr ''1'')])])
        \<lparr>cursor = Some 100, gcs = [], calls = []\<rparr>
       = (400, \<lparr>cursor = Some 100, gcs = [], calls = []\<rparr>)
   \<and> process_pubsub_push demo_lib demo_cf demo_env
        (JObj [(''message'', JObj [(''data'', JStr ''e30=''), (''messageId'', JStr ''1'')])])
        \<lparr>cursor = Some 100, gcs = [], calls = []\<rparr>
       = (204, \<lparr>cursor = Some 100, gcs = [], calls = []\<rparr>)"
proof -
  let ?w = "\<lparr>cursor = Some 100, gcs = [], calls = []\<rparr>"
  have h: "datastore_client demo_cf" "storage_client demo_cf"
    by (simp_all add: demo_cf_def)
  note r = malformed_push_rejected [OF h, where lib = demo_lib and ev = demo_env and w = ?w]
  have a1: "process_pubsub_push demo_lib demo_cf demo_env JNull ?w = (400, ?w)"
    using r [of JNull] by simp
  have a2: "process_pubsub_push demo_lib demo_cf demo_env
      (JObj [(''subscription'', JStr ''gmail'')]) ?w = (400, ?w)"
    using r [where ekvs = "[(''subscription'', JStr ''gmail'')]"]
    by (simp add: dict_get_def)
  have a3: "process_pubsub_push demo_lib demo_cf demo_env
      (JObj [(''message'', JObj [(''messageId'', JStr ''1'')])]) ?w = (400, ?w)"
    using r [where ekvs = "[(''message'', JObj [(''messageId'', JStr ''1'')])]"
        and mkvs = "[(''messageId'', JStr ''1'')]"]
    by (simp add: dict_get_def)
  have a4: "process_pubsub_push demo_lib demo_cf demo_env
      (JObj [(''message'', JObj [(''data'', JStr ''e3g=''), (''messageId'', JStr ''1'')])]) ?w
      = (400, ?w)"
    using r [where ekvs = "[(''message'', JObj [(''data'', JStr ''e3g=''), (''messageId'', JStr ''1'')])]"
        and mkvs = "[(''data'', JStr ''e3g=''), (''messageId'', JStr ''1'')]"
        and s = "''e3g=''" and t = "''{x''"]
    by (simp add: dict_get_def demo_lib_def)
  have a5: "process_pubsub_push demo_lib demo_cf demo_env
      (JObj [(''message'', JObj [(''data'', JStr ''e30=''), (''messageId'', JStr ''1'')])]) ?w
      = (204, ?w)"
    using r [where ekvs = "[(''message'', JObj [(''data'', JStr ''e30=''), (''messageId'', JStr ''1'')])]"
        and mkvs = "[(''data'', JStr ''e30=''), (''messageId'', JStr ''1'')]"
        and s = "''e30=''" and t = "''{}''" and nkvs = "[]"]
    by (simp add: dict_get_def demo_lib_def demo_cf_def)
  from h a1 a2 a3 a4 a5 show ?thesis by simp
qed

text \<open>
  Claim C5 as stated fails: data that decodes to the empty JSON object, which has
  neither \<^verbatim>\<open>emailAddress\<close> nor \<^verbatim>\<open>historyId\<close>, is answered with 204, not 400.
\<close>

theorem malformed_push_counterexample:
  "b64decode_utf8 demo_lib ''e30='' = Some ''{}'' \<and> json_loads demo_lib ''{}'' = Some (JObj [])
   \<and> fst (process_pubsub_push demo_lib demo_cf demo_env
        (JObj [(''message'', JObj [(''data'', JStr ''e30=''), (''messageId'', JStr ''1'')])])
        \<lparr>cursor = Some 100, gcs = [], calls = []\<rparr>) = 204"
  by (simp add: process_pubsub_push_def handle_notification_def dict_get_def demo_lib_def
      demo_cf_def Let_def)

text \<open>
  Data that is not base64, and a message that is a string, reach the handlers for
  unexpected exceptions: the answer is 500.
\<close>

lemma undecodable_push_data_500:
  "b64decode_utf8 demo_lib ''e3'' = None
   \<and> fst (process_pubsub_push demo_lib demo_cf demo_env
        (JObj [(''message'', JObj [(''data'', JStr ''e3''), (''messageId'', JStr ''1'')])])
        \<lparr>cursor = Some 100, gcs = [], calls = []\<rparr>) = 500
   \<and> fst (process_pubsub_push demo_lib demo_cf demo_env
        (JObj [(''message'', JStr ''hello'')])
        \<lparr>cursor = Some 100, gcs = [], calls = []\<rparr>) = 500"
  by (simp add: process_pubsub_push_def handle_notification_def dict_get_def demo_lib_def
      demo_cf_def Let_def)

end
